theory Spec2Isabelle
  imports Complex_Main
begin

section \<open>Errors and library tensors\<close>

text \<open>
  The notebooks are Python cells that call into the tensor library. A raised exception
  is modelled as the left summand of a sum type.
\<close>

datatype error =
  RuntimeError string | ValueError string | IndexError string | ZeroDivisionError | AttributeError string

text \<open>
  A tensor is a shape together with its elements in row-major order, as the library stores
  a contiguous tensor. A well-formed tensor has as many elements as its shape asks for.
\<close>

record 'a tensor =
  shape :: "nat list"
  elems :: "'a list"

definition wf_tensor :: "'a tensor \<Rightarrow> bool" where
  "wf_tensor t = (length (elems t) = prod_list (shape t))"

text \<open>\<^verbatim>\<open>Tensor.view(*shape)\<close>: same data, new shape; raises when the sizes disagree.\<close>

definition view :: "'a tensor \<Rightarrow> nat list \<Rightarrow> error + 'a tensor" where
  "view t shp =
     (if prod_list shp = length (elems t) then Inr \<lparr>shape = shp, elems = elems t\<rparr>
      else Inl (RuntimeError ''shape is invalid for input size''))"

text \<open>
  Broadcasting of two shapes: the shorter shape is padded with leading ones, and two
  dimensions are compatible when they are equal or one of them is one.
\<close>

definition pad_shape :: "nat \<Rightarrow> nat list \<Rightarrow> nat list" where
  "pad_shape r shp = replicate (r - length shp) 1 @ shp"

definition bdim :: "nat \<Rightarrow> nat \<Rightarrow> nat option" where
  "bdim a b = (if a = b then Some a else if a = 1 then Some b else if b = 1 then Some a else None)"

fun bshape :: "nat list \<Rightarrow> nat list \<Rightarrow> nat list option" where
  "bshape [] [] = Some []"
| "bshape (a # as) (b # bs) =
     (case bdim a b of None \<Rightarrow> None
      | Some d \<Rightarrow> (case bshape as bs of None \<Rightarrow> None | Some ds \<Rightarrow> Some (d # ds)))"
| "bshape _ _ = None"

text \<open>All multi-indices of a shape, in row-major order.\<close>

fun indices :: "nat list \<Rightarrow> nat list list" where
  "indices [] = [[]]"
| "indices (d # ds) = concat (map (\<lambda>i. map ((#) i) (indices ds)) [0..<d])"

text \<open>
  The position, in the row-major data of a tensor of shape \<open>shp\<close>, that a multi-index of
  the broadcast result reads: a dimension of size one is read at index 0.
\<close>

fun offset :: "nat list \<Rightarrow> nat list \<Rightarrow> nat \<Rightarrow> nat" where
  "offset (d # ds) (i # is) acc = offset ds is (acc * d + (if d = 1 then 0 else i))"
| "offset _ _ acc = acc"

text \<open>The elementwise comparison \<^verbatim>\<open>x == y\<close> of two tensors, with broadcasting. On
  well-formed tensors every read is within the data.\<close>

definition tensor_eq :: "'a tensor \<Rightarrow> 'a tensor \<Rightarrow> error + bool tensor" where
  "tensor_eq x y =
     (let r = max (length (shape x)) (length (shape y));
          sx = pad_shape r (shape x);
          sy = pad_shape r (shape y)
      in case bshape sx sy of
           None \<Rightarrow> Inl (RuntimeError ''The size of tensor a must match the size of tensor b'')
         | Some s \<Rightarrow>
             Inr \<lparr>shape = s,
                  elems = map (\<lambda>ix. elems x ! offset sx ix 0 = elems y ! offset sy ix 0) (indices s)\<rparr>)"

text \<open>
  \<^verbatim>\<open>Tensor.resize_(*sizes)\<close>: resizes in place. When the new shape needs fewer elements the
  tensor keeps the leading ones; when it needs more, the storage grows and the new
  elements are uninitialised memory, here the values \<open>junk\<close> gives.
\<close>

definition resize_inplace :: "(nat \<Rightarrow> 'a) \<Rightarrow> nat list \<Rightarrow> 'a tensor \<Rightarrow> 'a tensor" where
  "resize_inplace junk shp t =
     (let n = prod_list shp; old = length (elems t)
      in \<lparr>shape = shp,
          elems = (if n \<le> old then take n (elems t) else elems t @ map junk [old..<n])\<rparr>)"

section \<open>The data loader\<close>

text \<open>
  \<^verbatim>\<open>DataLoader(dataset, batch_size=bs, shuffle=True)\<close> with the default \<^verbatim>\<open>drop_last=False\<close>:
  the examples, in the order the shuffle of this epoch gave them, are cut into batches of
  \<open>bs\<close> examples, the last batch holding what is left. The list is the shuffled order.
\<close>

function batches :: "nat \<Rightarrow> 'a list \<Rightarrow> 'a list list" where
  "batches bs xs = (if bs = 0 \<or> xs = [] then [] else take bs xs # batches bs (drop bs xs))"
  by pat_completeness auto
termination
  by (relation "measure (\<lambda>(bs, xs). length xs)") auto

declare batches.simps [simp del]

text \<open>The default collate function stacks \<open>k\<close> images of shape \<open>(1, 28, 28)\<close> into one
  tensor of shape \<open>(k, 1, 28, 28)\<close>.\<close>

definition collate :: "real list list \<Rightarrow> real tensor" where
  "collate imgs = \<lparr>shape = [length imgs, 1, 28, 28], elems = concat imgs\<rparr>"

section \<open>The comparison of predictions with labels (Part 5)\<close>

text \<open>
  \<^verbatim>\<open>equals = top_class == labels.view(*top_class.shape)\<close>, and the variant the notebook
  warns against, \<^verbatim>\<open>equals = top_class == labels\<close>.
\<close>

definition equals_cell :: "'a tensor \<Rightarrow> 'a tensor \<Rightarrow> error + bool tensor" where
  "equals_cell top_cls labels =
     (case view labels (shape top_cls) of Inl e \<Rightarrow> Inl e | Inr lv \<Rightarrow> tensor_eq top_cls lv)"

definition equals_unreshaped :: "'a tensor \<Rightarrow> 'a tensor \<Rightarrow> error + bool tensor" where
  "equals_unreshaped top_cls labels = tensor_eq top_cls labels"

section \<open>The single training step of Part 3\<close>

text \<open>\<^verbatim>\<open>images.resize_(64, 784)\<close> on the batch the loader returned.\<close>

definition single_step_resize :: "(nat \<Rightarrow> real) \<Rightarrow> real tensor \<Rightarrow> real tensor" where
  "single_step_resize junk images = resize_inplace junk [64, 784] images"

text \<open>
  Every pixel of the batch \<open>t\<close> is still at its place in \<open>t'\<close>: the data of \<open>t'\<close> starts
  with the data of \<open>t\<close>. What \<open>t'\<close> holds beyond that was never a pixel of the batch.
\<close>

definition keeps_pixels :: "real tensor \<Rightarrow> real tensor \<Rightarrow> bool" where
  "keeps_pixels t t' = (take (length (elems t)) (elems t') = elems t)"

section \<open>Network modules\<close>

text \<open>
  The modules the notebooks build their networks from. A module acts on each row of a
  batch on its own: \<^verbatim>\<open>nn.Linear\<close> holds a weight matrix (one row per output) and a bias,
  \<^verbatim>\<open>nn.ReLU\<close> clamps at zero, \<^verbatim>\<open>nn.LogSoftmax(dim=1)\<close> subtracts from every entry of a row
  the logarithm of the sum of the exponentials of that row.
\<close>

datatype layer = Linear "real list list" "real list" | ReLU | LogSoftmax

definition linear :: "real list list \<Rightarrow> real list \<Rightarrow> real list \<Rightarrow> error + real list" where
  "linear W b x =
     (if length W = length b \<and> list_all (\<lambda>row. length row = length x) W
      then Inr (map2 (\<lambda>row bi. sum_list (map2 (*) row x) + bi) W b)
      else Inl (RuntimeError ''mat1 and mat2 shapes cannot be multiplied''))"

definition relu :: "real list \<Rightarrow> real list" where
  "relu x = map (max 0) x"

definition log_softmax :: "real list \<Rightarrow> real list" where
  "log_softmax x = map (\<lambda>v. v - ln (sum_list (map exp x))) x"

fun apply_layer :: "layer \<Rightarrow> real list \<Rightarrow> error + real list" where
  "apply_layer (Linear W b) x = linear W b x"
| "apply_layer ReLU x = Inr (relu x)"
| "apply_layer LogSoftmax x = Inr (log_softmax x)"

text \<open>\<^verbatim>\<open>nn.Sequential\<close>: the modules in order, the first error ending the pass.\<close>

fun sequential :: "layer list \<Rightarrow> real list \<Rightarrow> error + real list" where
  "sequential [] x = Inr x"
| "sequential (l # ls) x = (case apply_layer l x of Inl e \<Rightarrow> Inl e | Inr y \<Rightarrow> sequential ls y)"

text \<open>A module applied to a batch: every row in turn.\<close>

fun on_rows :: "(real list \<Rightarrow> error + real list) \<Rightarrow> real list list \<Rightarrow> error + real list list" where
  "on_rows f [] = Inr []"
| "on_rows f (x # xs) =
     (case f x of Inl e \<Rightarrow> Inl e
      | Inr y \<Rightarrow> (case on_rows f xs of Inl e \<Rightarrow> Inl e | Inr ys \<Rightarrow> Inr (y # ys)))"

text \<open>
  \<^verbatim>\<open>nn.Linear(n_in, n_out)\<close> creates the layer with freshly drawn parameters; \<open>w\<close> and \<open>b\<close>
  are the values the initialisation gave them.
\<close>

definition nn_Linear :: "nat \<Rightarrow> nat \<Rightarrow> (nat \<Rightarrow> nat \<Rightarrow> real) \<Rightarrow> (nat \<Rightarrow> real) \<Rightarrow> layer" where
  "nn_Linear n_in n_out w b =
     Linear (map (\<lambda>i. map (\<lambda>j. w i j) [0..<n_in]) [0..<n_out]) (map b [0..<n_out])"

text \<open>
  The three cells of Part 3 that bind the name \<^verbatim>\<open>logits\<close>. The first two build the network
  without a normalising layer; the third builds it with \<^verbatim>\<open>nn.LogSoftmax(dim=1)\<close> at the end
  and binds \<^verbatim>\<open>logits = model(images)\<close> all the same. \<open>init k\<close> gives the initial parameters
  of the \<open>k\<close>-th linear layer; \<open>images\<close> are the rows of the flattened batch.
\<close>

type_synonym init = "nat \<Rightarrow> (nat \<Rightarrow> nat \<Rightarrow> real) \<times> (nat \<Rightarrow> real)"

definition model_crossentropy :: "init \<Rightarrow> layer list" where
  "model_crossentropy init =
     [nn_Linear 784 128 (fst (init 0)) (snd (init 0)), ReLU,
      nn_Linear 128 64 (fst (init 1)) (snd (init 1)), ReLU,
      nn_Linear 64 10 (fst (init 2)) (snd (init 2))]"

definition model_logsoftmax :: "init \<Rightarrow> layer list" where
  "model_logsoftmax init =
     [nn_Linear 784 128 (fst (init 0)) (snd (init 0)), ReLU,
      nn_Linear 128 64 (fst (init 1)) (snd (init 1)), ReLU,
      nn_Linear 64 10 (fst (init 2)) (snd (init 2)),
      LogSoftmax]"

definition logits_cell_crossentropy :: "init \<Rightarrow> real list list \<Rightarrow> error + real list list" where
  "logits_cell_crossentropy init images = on_rows (sequential (model_crossentropy init)) images"

definition logits_cell_nll_exercise :: "init \<Rightarrow> real list list \<Rightarrow> error + real list list" where
  "logits_cell_nll_exercise init images = on_rows (sequential (model_crossentropy init)) images"

definition logits_cell_autograd :: "init \<Rightarrow> real list list \<Rightarrow> error + real list list" where
  "logits_cell_autograd init images = on_rows (sequential (model_logsoftmax init)) images"

text \<open>What the final linear layer of the third cell's network puts out, before the
  normalising layer: the network without its last module.\<close>

definition final_linear_output :: "init \<Rightarrow> real list list \<Rightarrow> error + real list list" where
  "final_linear_output init images = on_rows (sequential (butlast (model_logsoftmax init))) images"

section \<open>The dropout classifier (Part 5)\<close>

text \<open>
  \<^verbatim>\<open>nn.Dropout(p)\<close>: in training mode every entry is zeroed with probability \<open>p\<close> and the
  kept ones are scaled by \<open>1 / (1 - p)\<close>; in evaluation mode the module is the identity.
  \<open>keep\<close> is the sample the random generator gave for this call: entry \<open>i\<close> is kept when
  \<open>keep i\<close> holds.
\<close>

definition dropout :: "real \<Rightarrow> bool \<Rightarrow> (nat \<Rightarrow> bool) \<Rightarrow> real list \<Rightarrow> real list" where
  "dropout p train keep x =
     (if train then map (\<lambda>(i, v). if keep i then v / (1 - p) else 0) (enumerate 0 x) else x)"

record classifier2 =
  fc1 :: layer
  fc2 :: layer
  fc3 :: layer
  drop_p :: real
  training :: bool

definition Classifier2 :: "init \<Rightarrow> classifier2" where
  "Classifier2 init =
     \<lparr>fc1 = nn_Linear 784 128 (fst (init 0)) (snd (init 0)),
      fc2 = nn_Linear 128 64 (fst (init 1)) (snd (init 1)),
      fc3 = nn_Linear 64 10 (fst (init 2)) (snd (init 2)),
      drop_p = 2 / 10,
      training = True\<rparr>"

definition model_eval :: "classifier2 \<Rightarrow> classifier2" where
  "model_eval m = m\<lparr>training := False\<rparr>"

definition model_train :: "classifier2 \<Rightarrow> classifier2" where
  "model_train m = m\<lparr>training := True\<rparr>"

text \<open>
  \<^verbatim>\<open>Classifier2.forward\<close> on one row of the flattened batch; \<open>keep1\<close> and \<open>keep2\<close> are the
  samples of the two dropout calls.
\<close>

definition forward :: "classifier2 \<Rightarrow> (nat \<Rightarrow> bool) \<Rightarrow> (nat \<Rightarrow> bool) \<Rightarrow> real list \<Rightarrow> error + real list" where
  "forward m keep1 keep2 x =
     (case apply_layer (fc1 m) x of Inl e \<Rightarrow> Inl e | Inr a1 \<Rightarrow>
        let x1 = dropout (drop_p m) (training m) keep1 (relu a1) in
        (case apply_layer (fc2 m) x1 of Inl e \<Rightarrow> Inl e | Inr a2 \<Rightarrow>
           let x2 = dropout (drop_p m) (training m) keep2 (relu a2) in
           (case apply_layer (fc3 m) x2 of Inl e \<Rightarrow> Inl e | Inr a3 \<Rightarrow>
              Inr (log_softmax a3))))"

text \<open>The inference cell: \<^verbatim>\<open>model.eval()\<close>, then \<^verbatim>\<open>model.forward(img)\<close>.\<close>

definition inference_cell :: "classifier2 \<Rightarrow> (nat \<Rightarrow> bool) \<Rightarrow> (nat \<Rightarrow> bool) \<Rightarrow> real list \<Rightarrow> error + real list" where
  "inference_cell m keep1 keep2 img = forward (model_eval m) keep1 keep2 img"

section \<open>Accuracy on one batch\<close>

text \<open>
  A floating-point scalar is a real number or not-a-number, which the mean of an empty
  tensor is. Rounding is not modelled.
\<close>

datatype scalar = Val real | NaN

fun scalar_add :: "scalar \<Rightarrow> scalar \<Rightarrow> scalar" where
  "scalar_add (Val a) (Val b) = Val (a + b)"
| "scalar_add _ _ = NaN"

fun scalar_scale :: "scalar \<Rightarrow> real \<Rightarrow> scalar" where
  "scalar_scale (Val a) c = Val (a * c)"
| "scalar_scale NaN c = NaN"

text \<open>
  The indices of the largest entries of a row. Where several entries are largest the
  library does not say which index \<^verbatim>\<open>topk\<close> returns: \<open>tie\<close> is its choice, taken when it
  names one of the largest entries.
\<close>

definition largest_at :: "real list \<Rightarrow> nat list" where
  "largest_at xs = filter (\<lambda>i. list_all (\<lambda>y. y \<le> xs ! i) xs) [0..<length xs]"

definition argmax :: "(real list \<Rightarrow> nat) \<Rightarrow> real list \<Rightarrow> nat" where
  "argmax tie xs =
     (if tie xs \<in> set (largest_at xs) then tie xs
      else (case largest_at xs of [] \<Rightarrow> 0 | i # _ \<Rightarrow> i))"

definition torch_exp :: "real tensor \<Rightarrow> real tensor" where
  "torch_exp t = \<lparr>shape = shape t, elems = map exp (elems t)\<rparr>"

text \<open>
  \<^verbatim>\<open>Tensor.topk(1, dim=1)\<close> on a tensor of shape \<open>(n, c, ...)\<close>: the largest value along
  dimension 1 and its index, both of shape \<open>(n, 1, ...)\<close>. Entry \<open>(i, j, k)\<close> of the tensor,
  \<open>k\<close> counting through the \<open>r\<close> positions of the remaining dimensions, lies at
  \<open>(i * c + j) * r + k\<close> of its data. A tensor without a dimension 1 raises.
\<close>

definition topk1 :: "(real list \<Rightarrow> nat) \<Rightarrow> real tensor \<Rightarrow> error + (real tensor \<times> nat tensor)" where
  "topk1 tie t =
     (case shape t of
        n # c # rest \<Rightarrow>
          if c = 0 then Inl (RuntimeError ''selected index k out of range'')
          else let r = prod_list rest;
                   lanes = concat (map (\<lambda>i. map (\<lambda>k. map (\<lambda>j. elems t ! ((i * c + j) * r + k)) [0..<c])
                                                  [0..<r]) [0..<n])
               in Inr (\<lparr>shape = n # 1 # rest, elems = map (\<lambda>l. foldl max (hd l) (tl l)) lanes\<rparr>,
                       \<lparr>shape = n # 1 # rest, elems = map (argmax tie) lanes\<rparr>)
      | _ \<Rightarrow> Inl (IndexError ''Dimension out of range''))"

definition type_FloatTensor :: "bool tensor \<Rightarrow> real tensor" where
  "type_FloatTensor t = \<lparr>shape = shape t, elems = map (\<lambda>b. if b then 1 else 0) (elems t)\<rparr>"

definition torch_mean :: "real tensor \<Rightarrow> scalar" where
  "torch_mean t =
     (if elems t = [] then NaN else Val (sum_list (elems t) / real (length (elems t))))"

section \<open>Training state and library calls\<close>

text \<open>
  The loops of the notebooks mutate the model and the optimizer through library calls.
  The state holds the parameters of the model, the \<^verbatim>\<open>.grad\<close> buffer of each parameter
  (\<open>None\<close> while it has never been set), the optimizer's own state, the mode flag of the
  module, the state of the random generator, what has been printed, and a log of the
  library calls made so far, each with the parameters and the gradient buffers it found.
\<close>

datatype event =
  View | Resize | Forward | Loss | Backward | Step | ZeroGrad | Item
  | Exp | Topk | Eq | Type | Mean | Eval | Train | Numpy

record 'o state =
  weights :: "real list"
  grads :: "real option list"
  opt :: 'o
  train_mode :: bool
  rng :: nat
  printed :: "scalar list"
  trace :: "(event \<times> real list \<times> real option list) list"

text \<open>
  What lies outside the notebooks: the function the network computes from its parameters,
  its mode, the random generator and a batch; the loss; the gradient automatic
  differentiation gives for parameter \<open>i\<close>; the update rule of the optimizer; whether
  \<^verbatim>\<open>zero_grad\<close> resets a buffer to \<open>None\<close> (newer versions of the library) or to zero; the
  index \<^verbatim>\<open>topk\<close> returns among several largest entries; and the failures of the library: \<open>fault ev k = Some e\<close> says that the call \<open>ev\<close>, made as the
  \<open>k\<close>-th call, raises \<open>e\<close>.
\<close>

record 'o lib =
  net :: "real list \<Rightarrow> bool \<Rightarrow> nat \<Rightarrow> real tensor \<Rightarrow> real tensor"
  criterion :: "real tensor \<Rightarrow> nat tensor \<Rightarrow> real"
  autograd :: "real list \<Rightarrow> bool \<Rightarrow> nat \<Rightarrow> real tensor \<Rightarrow> nat tensor \<Rightarrow> nat \<Rightarrow> real"
  opt_step :: "'o \<Rightarrow> real list \<Rightarrow> real option list \<Rightarrow> 'o \<times> real list"
  set_to_none :: bool
  tie :: "real list \<Rightarrow> nat"
  fault :: "event \<Rightarrow> nat \<Rightarrow> error option"

text \<open>The library when none of its calls is made to fail.\<close>

definition nofault :: "'o lib \<Rightarrow> 'o lib" where
  "nofault L = L\<lparr>fault := \<lambda>ev k. None\<rparr>"

text \<open>The graph an output remembers: what it was computed from.\<close>

record graph =
  g_weights :: "real list"
  g_mode :: bool
  g_rng :: nat
  g_images :: "real tensor"

type_synonym ('o, 'a) prog = "'o state \<Rightarrow> (error \<times> 'o state) + ('a \<times> 'o state)"

definition ret :: "'a \<Rightarrow> ('o, 'a) prog" where
  "ret a s = Inr (a, s)"

definition raise :: "error \<Rightarrow> ('o, 'a) prog" where
  "raise e s = Inl (e, s)"

text \<open>Sequencing: an exception of the first part ends the whole, with the state it left.\<close>

definition then_do :: "('o, 'a) prog \<Rightarrow> ('a \<Rightarrow> ('o, 'b) prog) \<Rightarrow> ('o, 'b) prog" where
  "then_do m f s = (case m s of Inl x \<Rightarrow> Inl x | Inr (a, s') \<Rightarrow> f a s')"

text \<open>A library call is logged when it is made, then it raises or does its work.\<close>

definition logged :: "event \<Rightarrow> 'o state \<Rightarrow> 'o state" where
  "logged ev s = s\<lparr>trace := trace s @ [(ev, weights s, grads s)]\<rparr>"

definition lib_call :: "'o lib \<Rightarrow> event \<Rightarrow> ('o state \<Rightarrow> error + ('a \<times> 'o state)) \<Rightarrow> ('o, 'a) prog" where
  "lib_call L ev f s =
     (let s1 = logged ev s
      in case fault L ev (length (trace s)) of
           Some e \<Rightarrow> Inl (e, s1)
         | None \<Rightarrow> (case f s1 of Inl e \<Rightarrow> Inl (e, s1) | Inr r \<Rightarrow> Inr r))"

definition pure_call :: "'o lib \<Rightarrow> event \<Rightarrow> error + 'a \<Rightarrow> ('o, 'a) prog" where
  "pure_call L ev r = lib_call L ev (\<lambda>s. case r of Inl e \<Rightarrow> Inl e | Inr a \<Rightarrow> Inr (a, s))"

text \<open>\<^verbatim>\<open>images.view(images.shape[0], -1)\<close>: one row per image. \<open>n\<close> is \<^verbatim>\<open>images.shape[0]\<close>,
  which a tensor without dimensions does not have.\<close>

definition view_flat :: "real tensor \<Rightarrow> nat \<Rightarrow> error + real tensor" where
  "view_flat t n =
     (if n = 0 then Inl (RuntimeError ''cannot reshape tensor of 0 elements'')
      else if length (elems t) mod n = 0 then view t [n, length (elems t) div n]
      else Inl (RuntimeError ''shape is invalid for input size''))"

definition view_rows :: "'o lib \<Rightarrow> real tensor \<Rightarrow> ('o, real tensor) prog" where
  "view_rows L t =
     (case shape t of
        [] \<Rightarrow> raise (IndexError ''tuple index out of range'')
      | n # _ \<Rightarrow> pure_call L View (view_flat t n))"

definition model_call :: "'o lib \<Rightarrow> real tensor \<Rightarrow> ('o, real tensor \<times> graph) prog" where
  "model_call L images =
     lib_call L Forward (\<lambda>s.
       Inr ((net L (weights s) (train_mode s) (rng s) images,
             \<lparr>g_weights = weights s, g_mode = train_mode s, g_rng = rng s, g_images = images\<rparr>),
            s\<lparr>rng := Suc (rng s)\<rparr>))"

definition criterion_call ::
  "'o lib \<Rightarrow> real tensor \<times> graph \<Rightarrow> nat tensor \<Rightarrow> ('o, real \<times> graph \<times> nat tensor) prog" where
  "criterion_call L out labels =
     pure_call L Loss (Inr (criterion L (fst out) labels, snd out, labels))"

text \<open>The gradient of a loss with respect to parameter \<open>i\<close>.\<close>

definition gradient :: "'o lib \<Rightarrow> real \<times> graph \<times> nat tensor \<Rightarrow> nat \<Rightarrow> real" where
  "gradient L loss i =
     (case loss of (v, g, labels) \<Rightarrow>
        autograd L (g_weights g) (g_mode g) (g_rng g) (g_images g) labels i)"

text \<open>\<^verbatim>\<open>loss.backward()\<close> adds the gradient to every buffer; an unset buffer is set to it.\<close>

definition accumulate :: "real option list \<Rightarrow> (nat \<Rightarrow> real) \<Rightarrow> real option list" where
  "accumulate gs d =
     map (\<lambda>(i, g). Some (case g of None \<Rightarrow> d i | Some a \<Rightarrow> a + d i)) (enumerate 0 gs)"

definition backward_call :: "'o lib \<Rightarrow> real \<times> graph \<times> nat tensor \<Rightarrow> ('o, unit) prog" where
  "backward_call L loss =
     lib_call L Backward (\<lambda>s. Inr ((), s\<lparr>grads := accumulate (grads s) (gradient L loss)\<rparr>))"

definition step_call :: "'o lib \<Rightarrow> ('o, unit) prog" where
  "step_call L =
     lib_call L Step (\<lambda>s.
       case opt_step L (opt s) (weights s) (grads s) of
         (o', w') \<Rightarrow> Inr ((), s\<lparr>weights := w', opt := o'\<rparr>))"

definition zeroed :: "bool \<Rightarrow> real option list \<Rightarrow> real option list" where
  "zeroed to_none gs =
     map (\<lambda>g. case g of None \<Rightarrow> None | Some a \<Rightarrow> if to_none then None else Some 0) gs"

definition zero_grad_call :: "'o lib \<Rightarrow> ('o, unit) prog" where
  "zero_grad_call L =
     lib_call L ZeroGrad (\<lambda>s. Inr ((), s\<lparr>grads := zeroed (set_to_none L) (grads s)\<rparr>))"

definition item_call :: "'o lib \<Rightarrow> real \<times> graph \<times> nat tensor \<Rightarrow> ('o, real) prog" where
  "item_call L loss = pure_call L Item (Inr (fst loss))"

definition eval_call :: "'o lib \<Rightarrow> ('o, unit) prog" where
  "eval_call L = lib_call L Eval (\<lambda>s. Inr ((), s\<lparr>train_mode := False\<rparr>))"

definition train_call :: "'o lib \<Rightarrow> ('o, unit) prog" where
  "train_call L = lib_call L Train (\<lambda>s. Inr ((), s\<lparr>train_mode := True\<rparr>))"

definition print :: "scalar \<Rightarrow> ('o, unit) prog" where
  "print v s = Inr ((), s\<lparr>printed := printed s @ [v]\<rparr>)"

text \<open>\<^verbatim>\<open>optim.SGD(model.parameters(), lr)\<close>: a parameter without a gradient is skipped.\<close>

definition sgd :: "real \<Rightarrow> unit \<Rightarrow> real list \<Rightarrow> real option list \<Rightarrow> unit \<times> real list" where
  "sgd lr u w gs =
     ((), map (\<lambda>(i, v). case (if i < length gs then gs ! i else None) of
                          None \<Rightarrow> v | Some d \<Rightarrow> v - lr * d) (enumerate 0 w))"

text \<open>The state right after the model and the optimizer have been created.\<close>

definition fresh :: "real list \<Rightarrow> 'o \<Rightarrow> nat \<Rightarrow> 'o state" where
  "fresh w0 o0 r0 =
     \<lparr>weights = w0, grads = replicate (length w0) None, opt = o0, train_mode = True,
      rng = r0, printed = [], trace = []\<rparr>"

text \<open>What the loader hands out in one pass over a data set, given in its shuffled order.\<close>

definition DataLoader :: "(real list \<times> nat) list \<Rightarrow> (real tensor \<times> nat tensor) list" where
  "DataLoader ds =
     map (\<lambda>b. (collate (map fst b), \<lparr>shape = [length b], elems = map snd b\<rparr>)) (batches 64 ds)"

section \<open>The training loop of Part 3\<close>

text \<open>
  The training pass the exercise fills in: flatten the images, forward pass and loss,
  \<^verbatim>\<open>loss.backward()\<close>, \<^verbatim>\<open>optimizer.step()\<close>, \<^verbatim>\<open>optimizer.zero_grad()\<close>, and \<^verbatim>\<open>loss.item()\<close>
  for the running loss.
\<close>

type_synonym batch = "real tensor \<times> nat tensor"

definition training_pass_exercise :: "'o lib \<Rightarrow> batch \<Rightarrow> ('o, real) prog" where
  "training_pass_exercise L b =
     (case b of (images, labels) \<Rightarrow>
        then_do (view_rows L images) (\<lambda>images.
        then_do (model_call L images) (\<lambda>out.
        then_do (criterion_call L out labels) (\<lambda>loss.
        then_do (backward_call L loss) (\<lambda>_.
        then_do (step_call L) (\<lambda>_.
        then_do (zero_grad_call L) (\<lambda>_.
        item_call L loss)))))))"

text \<open>
  The pattern the notebook demonstrates before the exercise, as a training pass: the
  gradients are cleared first, then come the forward pass, the loss, the backward pass and
  the step of the optimizer. The batch is flattened as the loop of the exercise flattens it.
\<close>

definition training_pass_demonstrated :: "'o lib \<Rightarrow> batch \<Rightarrow> ('o, real) prog" where
  "training_pass_demonstrated L b =
     (case b of (images, labels) \<Rightarrow>
        then_do (view_rows L images) (\<lambda>images.
        then_do (zero_grad_call L) (\<lambda>_.
        then_do (model_call L images) (\<lambda>out.
        then_do (criterion_call L out labels) (\<lambda>loss.
        then_do (backward_call L loss) (\<lambda>_.
        then_do (step_call L) (\<lambda>_.
        item_call L loss)))))))"

text \<open>
  The demonstration itself, two cells run one after the other on the first batch of the
  loader: \<^verbatim>\<open>images.resize_(64, 784)\<close>, \<^verbatim>\<open>optimizer.zero_grad()\<close>, forward pass, loss,
  \<^verbatim>\<open>loss.backward()\<close>, and in the second cell \<^verbatim>\<open>optimizer.step()\<close>. \<open>junk\<close> is what
  uninitialised memory holds.
\<close>

definition single_step :: "'o lib \<Rightarrow> (nat \<Rightarrow> real) \<Rightarrow> batch \<Rightarrow> ('o, real \<times> graph \<times> nat tensor) prog" where
  "single_step L junk b =
     (case b of (images, labels) \<Rightarrow>
        then_do (pure_call L Resize (Inr (single_step_resize junk images))) (\<lambda>images.
        then_do (zero_grad_call L) (\<lambda>_.
        then_do (model_call L images) (\<lambda>output.
        then_do (criterion_call L output labels) (\<lambda>loss.
        then_do (backward_call L loss) (\<lambda>_.
        then_do (step_call L) (\<lambda>_. ret loss)))))))"

text \<open>\<^verbatim>\<open>for images, labels in trainloader: ...; running_loss += loss.item()\<close>\<close>

fun run_batches :: "(batch \<Rightarrow> ('o, real) prog) \<Rightarrow> batch list \<Rightarrow> real \<Rightarrow> ('o, real) prog" where
  "run_batches pass [] running = ret running"
| "run_batches pass (b # bs) running =
     then_do (pass b) (\<lambda>l. run_batches pass bs (running + l))"

text \<open>One epoch: the loop over the loader, then the \<^verbatim>\<open>else\<close> branch printing
  \<^verbatim>\<open>running_loss/len(trainloader)\<close>.\<close>

definition epoch_loss :: "(batch \<Rightarrow> ('o, real) prog) \<Rightarrow> batch list \<Rightarrow> ('o, unit) prog" where
  "epoch_loss pass trainloader =
     then_do (run_batches pass trainloader 0) (\<lambda>running_loss.
       if length trainloader = 0 then raise ZeroDivisionError
       else print (Val (running_loss / real (length trainloader))))"

text \<open>\<^verbatim>\<open>for e in range(epochs): ...\<close>, one pass of the loader per epoch.\<close>

fun run_epochs :: "('l \<Rightarrow> ('o, unit) prog) \<Rightarrow> 'l list \<Rightarrow> ('o, unit) prog" where
  "run_epochs epoch [] = ret ()"
| "run_epochs epoch (l # ls) = then_do (epoch l) (\<lambda>_. run_epochs epoch ls)"

definition train_exercise :: "'o lib \<Rightarrow> batch list list \<Rightarrow> ('o, unit) prog" where
  "train_exercise L loaders = run_epochs (epoch_loss (training_pass_exercise L)) loaders"

definition train_demonstrated :: "'o lib \<Rightarrow> batch list list \<Rightarrow> ('o, unit) prog" where
  "train_demonstrated L loaders = run_epochs (epoch_loss (training_pass_demonstrated L)) loaders"

text \<open>
  The cell of the exercise: a new model with parameters \<open>w0\<close>, stochastic gradient descent
  with learning rate 0.003, five epochs; \<open>trainset e\<close> is the training set in the order
  the shuffle of epoch \<open>e\<close> gave it.
\<close>

definition cell_exercise ::
  "unit lib \<Rightarrow> real list \<Rightarrow> nat \<Rightarrow> (nat \<Rightarrow> (real list \<times> nat) list)
   \<Rightarrow> (error \<times> unit state) + (unit \<times> unit state)" where
  "cell_exercise L w0 r0 trainset =
     train_exercise (L\<lparr>opt_step := sgd (3 / 1000)\<rparr>)
       (map (\<lambda>e. DataLoader (trainset e)) [0..<5]) (fresh w0 () r0)"

section \<open>The loops of Part 5\<close>

definition training_pass_validation :: "'o lib \<Rightarrow> batch \<Rightarrow> ('o, real) prog" where
  "training_pass_validation L b =
     (case b of (images, labels) \<Rightarrow>
        then_do (zero_grad_call L) (\<lambda>_.
        then_do (model_call L images) (\<lambda>log_ps.
        then_do (criterion_call L log_ps labels) (\<lambda>loss.
        then_do (backward_call L loss) (\<lambda>_.
        then_do (step_call L) (\<lambda>_.
        item_call L loss))))))"

text \<open>
  From the output of the network to the accuracy on the batch: \<^verbatim>\<open>torch.exp\<close>,
  \<^verbatim>\<open>topk(1, dim=1)\<close>, the comparison with the reshaped labels, the conversion to floats
  and \<^verbatim>\<open>torch.mean\<close>.
\<close>

definition accuracy_of_batch :: "'o lib \<Rightarrow> real tensor \<Rightarrow> nat tensor \<Rightarrow> ('o, scalar) prog" where
  "accuracy_of_batch L log_ps labels =
     then_do (pure_call L Exp (Inr (torch_exp log_ps))) (\<lambda>probs.
     then_do (pure_call L Topk (topk1 (tie L) probs)) (\<lambda>top.
     then_do (pure_call L View (view labels (shape (snd top)))) (\<lambda>lv.
     then_do (pure_call L Eq (tensor_eq (snd top) lv)) (\<lambda>equals.
     then_do (pure_call L Type (Inr (type_FloatTensor equals))) (\<lambda>fl.
     pure_call L Mean (Inr (torch_mean fl)))))))"

definition validation_pass :: "'o lib \<Rightarrow> batch \<Rightarrow> ('o, scalar) prog" where
  "validation_pass L b =
     (case b of (images, labels) \<Rightarrow>
        then_do (model_call L images) (\<lambda>out. accuracy_of_batch L (fst out) labels))"

text \<open>\<^verbatim>\<open>accuracy = []; for ... in testloader: accuracy.append(...)\<close>\<close>

fun collect :: "(batch \<Rightarrow> ('o, scalar) prog) \<Rightarrow> batch list \<Rightarrow> scalar list \<Rightarrow> ('o, scalar list) prog" where
  "collect pass [] accuracy = ret accuracy"
| "collect pass (b # bs) accuracy = then_do (pass b) (\<lambda>a. collect pass bs (accuracy @ [a]))"

text \<open>Python's \<^verbatim>\<open>sum\<close> starts from 0 and adds from the left.\<close>

definition py_sum :: "scalar list \<Rightarrow> scalar" where
  "py_sum xs = foldl scalar_add (Val 0) xs"

text \<open>The validation loop, with \<^verbatim>\<open>accuracy = sum(accuracy)/len(accuracy)\<close> and the print of
  \<^verbatim>\<open>accuracy*100\<close>; the accuracy is returned.\<close>

definition validation_loop :: "'o lib \<Rightarrow> batch list \<Rightarrow> ('o, scalar) prog" where
  "validation_loop L testloader =
     then_do (collect (validation_pass L) testloader []) (\<lambda>accuracy.
       if length accuracy = 0 then raise ZeroDivisionError
       else then_do (ret (scalar_scale (py_sum accuracy) (1 / real (length accuracy)))) (\<lambda>accuracy.
            then_do (print (scalar_scale accuracy 100)) (\<lambda>_. ret accuracy)))"



text \<open>
  The loop of the dropout exercise. The training pass also measures the accuracy on its
  batch; the test pass switches the model to evaluation mode before the forward pass and
  back to training mode at its end.
\<close>

definition training_pass_dropout :: "'o lib \<Rightarrow> batch \<Rightarrow> ('o, scalar) prog" where
  "training_pass_dropout L b =
     (case b of (images, labels) \<Rightarrow>
        then_do (zero_grad_call L) (\<lambda>_.
        then_do (model_call L images) (\<lambda>preds.
        then_do (criterion_call L preds labels) (\<lambda>loss.
        then_do (backward_call L loss) (\<lambda>_.
        then_do (step_call L) (\<lambda>_.
        accuracy_of_batch L (fst preds) labels))))))"

definition test_pass_dropout :: "'o lib \<Rightarrow> batch \<Rightarrow> ('o, scalar) prog" where
  "test_pass_dropout L b =
     (case b of (images, labels) \<Rightarrow>
        then_do (eval_call L) (\<lambda>_.
        then_do (model_call L images) (\<lambda>test_preds.
        then_do (criterion_call L test_preds labels) (\<lambda>loss.
        then_do (accuracy_of_batch L (fst test_preds) labels) (\<lambda>acc.
        then_do (train_call L) (\<lambda>_. ret acc))))))"

text \<open>
  \<^verbatim>\<open>acc = 0; for ...: acc += torch.mean(...)\<close>. The accumulator is Python's integer 0 until
  the first batch has been added (\<open>None\<close>), a tensor from then on.
\<close>

fun add_up :: "(batch \<Rightarrow> ('o, scalar) prog) \<Rightarrow> batch list \<Rightarrow> scalar option \<Rightarrow> ('o, scalar option) prog" where
  "add_up pass [] acc = ret acc"
| "add_up pass (b # bs) acc =
     then_do (pass b) (\<lambda>a.
       add_up pass bs (Some (case acc of None \<Rightarrow> scalar_add (Val 0) a | Some t \<Rightarrow> scalar_add t a)))"

text \<open>\<^verbatim>\<open>acc.numpy()/len(loader)\<close>: an integer has no \<^verbatim>\<open>numpy\<close>. An accumulator that is a
  tensor has seen a batch, so the loader is not empty.\<close>

definition numpy_div :: "'o lib \<Rightarrow> scalar option \<Rightarrow> nat \<Rightarrow> ('o, scalar) prog" where
  "numpy_div L acc n =
     (case acc of
        None \<Rightarrow> raise (AttributeError ''int object has no attribute numpy'')
      | Some t \<Rightarrow> then_do (pure_call L Numpy (Inr t)) (\<lambda>v. ret (scalar_scale v (1 / real n))))"


definition test_accuracy_dropout :: "'o lib \<Rightarrow> batch list \<Rightarrow> ('o, scalar) prog" where
  "test_accuracy_dropout L testloader =
     then_do (add_up (test_pass_dropout L) testloader None) (\<lambda>test_acc.
       numpy_div L test_acc (length testloader))"



section \<open>Observations on a run\<close>

text \<open>The state a run ends in, whether it returned or raised.\<close>

definition final_state :: "(error \<times> 'o state) + ('a \<times> 'o state) \<Rightarrow> 'o state" where
  "final_state r = (case r of Inl (e, s) \<Rightarrow> s | Inr (a, s) \<Rightarrow> s)"

text \<open>The five operations of a training pass, and the order in which a run made them.\<close>

fun is_training_op :: "event \<Rightarrow> bool" where
  "is_training_op Forward = True"
| "is_training_op Loss = True"
| "is_training_op Backward = True"
| "is_training_op Step = True"
| "is_training_op ZeroGrad = True"
| "is_training_op _ = False"

definition ops :: "'o state \<Rightarrow> event list" where
  "ops s = filter is_training_op (map fst (trace s))"

text \<open>Gradient buffers that are all zero or unset.\<close>

definition zeroish :: "real option list \<Rightarrow> bool" where
  "zeroish gs = list_all (\<lambda>g. g = None \<or> g = Some 0) gs"

text \<open>The updates of a run: at every step of the optimizer, the parameters it found and
  the gradients it applied.\<close>

definition updates :: "'o state \<Rightarrow> (real list \<times> real option list) list" where
  "updates s = map snd (filter (\<lambda>c. fst c = Step) (trace s))"

text \<open>The gradient buffers the calls of one kind found, in the order of the calls.\<close>

definition grads_at :: "event \<Rightarrow> 'o state \<Rightarrow> real option list list" where
  "grads_at ev s = map (\<lambda>c. snd (snd c)) (filter (\<lambda>c. fst c = ev) (trace s))"

text \<open>
  Two states that agree on everything a training pass reads and on the updates made so
  far; the gradient buffers of the first are zero or unset, those of the second may hold
  anything.
\<close>

definition agree :: "'o state \<Rightarrow> 'o state \<Rightarrow> bool" where
  "agree s1 s2 =
     (weights s1 = weights s2 \<and> opt s1 = opt s2 \<and> train_mode s1 = train_mode s2 \<and>
      rng s1 = rng s2 \<and> printed s1 = printed s2 \<and> updates s1 = updates s2 \<and>
      length (grads s1) = length (grads s2) \<and> zeroish (grads s1))"

text \<open>Two runs that both return the same value or both raise the same error, in states
  that agree.\<close>

definition same_outcome ::
  "(error \<times> 'o state) + ('a \<times> 'o state) \<Rightarrow> (error \<times> 'o state) + ('a \<times> 'o state) \<Rightarrow> bool" where
  "same_outcome r1 r2 =
     (case r1 of
        Inl (e1, t1) \<Rightarrow> (case r2 of Inl (e2, t2) \<Rightarrow> e1 = e2 \<and> agree t1 t2 | Inr _ \<Rightarrow> False)
      | Inr (a1, t1) \<Rightarrow> (case r2 of Inl _ \<Rightarrow> False | Inr (a2, t2) \<Rightarrow> a1 = a2 \<and> agree t1 t2))"



section \<open>The fraction of correct predictions\<close>

text \<open>
  The class the model with parameters \<open>w\<close> predicts for one example in evaluation mode, and
  the fraction of the examples of a data set whose predicted class is their label.
\<close>

definition predicted_class :: "'o lib \<Rightarrow> real list \<Rightarrow> real list \<Rightarrow> nat" where
  "predicted_class L w x = argmax (tie L) (map exp (elems (net L w False 0 (collate [x]))))"

definition fraction_correct :: "'o lib \<Rightarrow> real list \<Rightarrow> (real list \<times> nat) list \<Rightarrow> real" where
  "fraction_correct L w ds =
     real (length (filter (\<lambda>(x, y). predicted_class L w x = y) ds)) / real (length ds)"

section \<open>A small library and batch for examples\<close>

text \<open>A library whose network returns its input, whose loss is 0 with gradient 1 for every
  parameter, with stochastic gradient descent as the optimizer and no failing call; and a
  batch of one flattened image of two pixels.\<close>

definition example_lib :: "unit lib" where
  "example_lib =
     \<lparr>net = (\<lambda>w m r t. t), criterion = (\<lambda>out labels. 0), autograd = (\<lambda>w m r im labels i. 1),
      opt_step = sgd (3 / 1000), set_to_none = False, tie = (\<lambda>xs. 0),
      fault = (\<lambda>ev k. None)\<rparr>"

definition example_batch :: batch where
  "example_batch = (\<lparr>shape = [1, 2], elems = [0, 0]\<rparr>, \<lparr>shape = [1], elems = [0]\<rparr>)"

section \<open>A model that always predicts class 0\<close>

text \<open>
  A network that gives every image the same row of log-probabilities, 11/20 for class 0
  and 1/20 for each of the nine others, and a test set of 10000 images in the order of
  one shuffle: 9984 images of class 0 followed by 16 images of class 1.
\<close>

definition constant_net :: "real list \<Rightarrow> bool \<Rightarrow> nat \<Rightarrow> real tensor \<Rightarrow> real tensor" where
  "constant_net w m r t =
     (let n = (case shape t of [] \<Rightarrow> 0 | k # _ \<Rightarrow> k)
      in \<lparr>shape = [n, 10], elems = concat (replicate n (ln (11 / 20) # replicate 9 (ln (1 / 20))))\<rparr>)"

definition constant_lib :: "unit lib" where
  "constant_lib = example_lib\<lparr>net := constant_net\<rparr>"

definition testset_skewed :: "(real list \<times> nat) list" where
  "testset_skewed = replicate 9984 (replicate 784 0, 0) @ replicate 16 (replicate 784 0, 1)"

text \<open>How many of the labels are class 0, the class that network predicts.\<close>

definition correct_in :: "nat list \<Rightarrow> real" where
  "correct_in ls = sum_list (map (\<lambda>l. if l = 0 then 1 else 0) ls)"

text \<open>The batches the loader cuts that test set into, and the accuracy on a batch.\<close>

definition full_batch :: batch where
  "full_batch = (collate (replicate 64 (replicate 784 0)), \<lparr>shape = [64], elems = replicate 64 0\<rparr>)"

definition last_batch :: batch where
  "last_batch = (collate (replicate 16 (replicate 784 0)), \<lparr>shape = [16], elems = replicate 16 1\<rparr>)"

definition batch_accuracy :: "batch \<Rightarrow> scalar" where
  "batch_accuracy b = Val (correct_in (elems (snd b)) / real (length (elems (snd b))))"

section \<open>Facts about tensors and the loader\<close>


lemma indices_sq: "indices [n, m] = concat (map (\<lambda>i. map (\<lambda>j. [i, j]) [0..<m]) [0..<n])"
  by (simp add: concat_map_singleton comp_def)

lemma concat_rows_nth:
  "i < n \<Longrightarrow> j < m \<Longrightarrow> concat (map (\<lambda>i. map (f i) [0..<m]) [0..<n]) ! (i * m + j) = f i j"
proof (induction n)
  case 0
  then show ?case by simp
next
  case (Suc n)
  have len: "length (concat (map (\<lambda>i. map (f i) [0..<m]) [0..<n])) = n * m"
    by (induction n) simp_all
  show ?case
  proof (cases "i < n")
    case True
    have "i * m + j < Suc i * m" using Suc.prems(2) by simp
    also have "\<dots> \<le> n * m" using True by (intro mult_le_mono1) simp
    finally have "i * m + j < n * m" .
    with True Suc show ?thesis by (simp add: nth_append len)
  next
    case False
    with Suc.prems have "i = n" by simp
    with Suc.prems show ?thesis by (simp add: nth_append len)
  qed
qed


lemma bshape_col: "bshape [n, Suc 0] [n, Suc 0] = Some [n, Suc 0]"
  by (simp add: bdim_def)

lemma bshape_col_row: "bshape [n, Suc 0] [Suc 0, n] = Some [n, n]"
  by (simp add: bdim_def)

lemma indices_col: "indices [n, Suc 0] = map (\<lambda>i. [i, 0]) [0..<n]"
  by (simp add: concat_map_singleton)

lemma tensor_eq_same_col:
  assumes "shape x = [n, 1]" "shape y = [n, 1]"
  shows "tensor_eq x y = Inr \<lparr>shape = [n, 1], elems = map (\<lambda>i. elems x ! i = elems y ! i) [0..<n]\<rparr>"
proof -
  have "map (\<lambda>ix. elems x ! offset [n, Suc 0] ix 0 = elems y ! offset [n, Suc 0] ix 0) (indices [n, Suc 0])
        = map (\<lambda>i. elems x ! i = elems y ! i) [0..<n]"
    unfolding indices_col by (auto simp add: comp_def)
  then show ?thesis
    using assms by (simp add: tensor_eq_def pad_shape_def bshape_col Let_def del: indices.simps offset.simps bshape.simps)
qed

lemma tensor_eq_col_vec:
  assumes "shape x = [n, 1]" "shape y = [n]"
  shows "tensor_eq x y = Inr \<lparr>shape = [n, n],
           elems = concat (map (\<lambda>i. map (\<lambda>j. elems x ! i = elems y ! j) [0..<n]) [0..<n])\<rparr>"
proof -
  have "map (\<lambda>ix. elems x ! offset [n, Suc 0] ix 0 = elems y ! offset [Suc 0, n] ix 0) (indices [n, n])
        = concat (map (\<lambda>i. map (\<lambda>j. elems x ! i = elems y ! j) [0..<n]) [0..<n])"
    unfolding indices_sq by (auto simp add: map_concat comp_def intro!: arg_cong[where f=concat])
  then show ?thesis
    using assms by (simp add: tensor_eq_def pad_shape_def bshape_col_row Let_def del: indices.simps offset.simps bshape.simps)
qed

lemma batches_Nil [simp]: "batches bs [] = []"
  by (subst batches.simps) simp

lemma batches_zero [simp]: "batches 0 xs = []"
  by (subst batches.simps) simp

lemma batches_Cons: "0 < bs \<Longrightarrow> xs \<noteq> [] \<Longrightarrow> batches bs xs = take bs xs # batches bs (drop bs xs)"
  by (subst batches.simps) simp

lemma batches_eq_Nil: "0 < bs \<Longrightarrow> (batches bs xs = []) = (xs = [])"
  by (subst batches.simps) simp

lemma concat_batches: "0 < bs \<Longrightarrow> concat (batches bs xs) = xs"
proof (induction bs xs rule: batches.induct)
  case (1 bs xs)
  show ?case
  proof (cases "xs = []")
    case True then show ?thesis by simp
  next
    case False
    with 1 show ?thesis by (simp add: batches_Cons)
  qed
qed

lemma batches_subset: "b \<in> set (batches bs xs) \<Longrightarrow> set b \<subseteq> set xs"
proof (induction bs xs rule: batches.induct)
  case (1 bs xs)
  show ?case
  proof (cases "bs = 0 \<or> xs = []")
    case True with 1 show ?thesis by auto
  next
    case False
    then have eq: "batches bs xs = take bs xs # batches bs (drop bs xs)" by (simp add: batches_Cons)
    from 1(2) eq have "b = take bs xs \<or> b \<in> set (batches bs (drop bs xs))" by simp
    then show ?thesis
    proof
      assume "b = take bs xs" then show ?thesis by (simp add: set_take_subset)
    next
      assume "b \<in> set (batches bs (drop bs xs))"
      with 1(1) False have "set b \<subseteq> set (drop bs xs)" by simp
      then show ?thesis using set_drop_subset by fastforce
    qed
  qed
qed

lemma batches_length: "b \<in> set (batches bs xs) \<Longrightarrow> 0 < length b \<and> length b \<le> bs"
proof (induction bs xs rule: batches.induct)
  case (1 bs xs)
  show ?case
  proof (cases "bs = 0 \<or> xs = []")
    case True with 1 show ?thesis by auto
  next
    case False
    then have eq: "batches bs xs = take bs xs # batches bs (drop bs xs)" by (simp add: batches_Cons)
    from 1(2) eq have "b = take bs xs \<or> b \<in> set (batches bs (drop bs xs))" by simp
    then show ?thesis
    proof
      assume "b = take bs xs" with False show ?thesis by (cases xs) auto
    next
      assume "b \<in> set (batches bs (drop bs xs))"
      with 1(1) False show ?thesis by simp
    qed
  qed
qed

lemma hd_batches: "0 < bs \<Longrightarrow> xs \<noteq> [] \<Longrightarrow> hd (batches bs xs) = take bs xs"
  by (simp add: batches_Cons)

lemma length_last_batches:
  "0 < bs \<Longrightarrow> xs \<noteq> [] \<Longrightarrow>
   length (last (batches bs xs)) = (if length xs mod bs = 0 then bs else length xs mod bs)"
proof (induction bs xs rule: batches.induct)
  case (1 bs xs)
  have eq: "batches bs xs = take bs xs # batches bs (drop bs xs)"
    using 1(2,3) by (simp add: batches_Cons)
  show ?case
  proof (cases "drop bs xs = []")
    case True
    then have le: "length xs \<le> bs" by simp
    have "0 < length xs" using 1(3) by simp
    with True eq le 1(2) show ?thesis
      by (cases "length xs = bs") (auto simp add: min_def)
  next
    case False
    then have gt: "bs < length xs" by simp
    have "last (batches bs xs) = last (batches bs (drop bs xs))"
      using eq False 1(2) by (simp add: batches_eq_Nil)
    moreover have "(length xs - bs) mod bs = length xs mod bs"
      using gt by (simp add: le_mod_geq)
    ultimately show ?thesis using 1(1)[OF _ 1(2) False] 1(2) 1(3) by simp
  qed
qed

lemma length_concat_uniform:
  "list_all (\<lambda>im. length im = k) imgs \<Longrightarrow> length (concat imgs) = k * length imgs"
  by (induction imgs) simp_all

lemma resize_keeps_iff:
  "(elems (resize_inplace junk shp t) = elems t) = (prod_list shp = length (elems t))"
proof -
  let ?n = "prod_list shp" and ?old = "length (elems t)"
  consider "?n < ?old" | "?n = ?old" | "?old < ?n" by linarith
  then show ?thesis
  proof cases
    case 1
    then have "length (take ?n (elems t)) \<noteq> length (elems t)" by simp
    then have "take ?n (elems t) \<noteq> elems t" by metis
    with 1 show ?thesis by (simp add: resize_inplace_def Let_def)
  next
    case 2 then show ?thesis by (simp add: resize_inplace_def Let_def)
  next
    case 3 then show ?thesis by (simp add: resize_inplace_def Let_def)
  qed
qed

lemma batches_replicate_append:
  "0 < bs \<Longrightarrow> batches bs (replicate (k * bs) a @ ys) = replicate k (replicate bs a) @ batches bs ys"
proof (induction k)
  case 0
  then show ?case by simp
next
  case (Suc k)
  have "replicate (Suc k * bs) a = replicate bs a @ replicate (k * bs) a"
    by (simp add: replicate_add)
  then have eq: "replicate (Suc k * bs) a @ ys = replicate bs a @ (replicate (k * bs) a @ ys)"
    by simp
  have "batches bs (replicate bs a @ (replicate (k * bs) a @ ys))
          = replicate bs a # batches bs (replicate (k * bs) a @ ys)"
    using Suc.prems by (subst batches.simps) simp
  with Suc show ?case unfolding eq by simp
qed

lemma batches_short: "0 < length xs \<Longrightarrow> length xs \<le> bs \<Longrightarrow> batches bs xs = [xs]"
  by (subst batches.simps) (cases xs, auto)

section \<open>C9: the comparison of predictions with labels\<close>

text \<open>
  C9. For a batch of \<open>n\<close> examples, \<^verbatim>\<open>top_class\<close> of shape \<open>(n, 1)\<close> and a label vector of
  \<open>n\<close> elements, \<^verbatim>\<open>top_class == labels.view(*top_class.shape)\<close> is a tensor of shape
  \<open>(n, 1)\<close> whose entry \<open>i\<close> says whether the predicted class of example \<open>i\<close> is label \<open>i\<close>;
  the comparison with the labels as they are broadcasts to shape \<open>(n, n)\<close>, entry \<open>(i, j)\<close>
  comparing prediction \<open>i\<close> with label \<open>j\<close>.
\<close>

theorem equals_is_examplewise:
  assumes "shape top_cls = [n, 1]" and "shape labels = [n]" and "wf_tensor labels" and "wf_tensor top_cls"
  shows "equals_cell top_cls labels =
           Inr \<lparr>shape = [n, 1], elems = map (\<lambda>i. elems top_cls ! i = elems labels ! i) [0..<n]\<rparr>
       \<and> (\<exists>r. equals_unreshaped top_cls labels = Inr r \<and> shape r = [n, n] \<and>
              (\<forall>i<n. \<forall>j<n. elems r ! (i * n + j) = (elems top_cls ! i = elems labels ! j)))"
proof
  have v: "view labels (shape top_cls) = Inr \<lparr>shape = [n, 1], elems = elems labels\<rparr>"
    using assms by (simp add: view_def wf_tensor_def)
  show "equals_cell top_cls labels =
           Inr \<lparr>shape = [n, 1], elems = map (\<lambda>i. elems top_cls ! i = elems labels ! i) [0..<n]\<rparr>"
    unfolding equals_cell_def v using tensor_eq_same_col [of top_cls n "\<lparr>shape = [n, 1], elems = elems labels\<rparr>"] assms(1)
    by simp
  let ?r = "\<lparr>shape = [n, n],
           elems = concat (map (\<lambda>i. map (\<lambda>j. elems top_cls ! i = elems labels ! j) [0..<n]) [0..<n])\<rparr>"
  have "equals_unreshaped top_cls labels = Inr ?r"
    unfolding equals_unreshaped_def using assms(1,2) by (rule tensor_eq_col_vec)
  moreover have "\<forall>i<n. \<forall>j<n. elems ?r ! (i * n + j) = (elems top_cls ! i = elems labels ! j)"
    by (simp add: concat_rows_nth)
  ultimately show "\<exists>r. equals_unreshaped top_cls labels = Inr r \<and> shape r = [n, n] \<and>
              (\<forall>i<n. \<forall>j<n. elems r ! (i * n + j) = (elems top_cls ! i = elems labels ! j))"
    by (intro exI [where x = ?r]) simp
qed

theorem equals_is_examplewise_witness:
  "equals_cell \<lparr>shape = [2, 1], elems = [3, 5 :: int]\<rparr> \<lparr>shape = [2], elems = [3, 4]\<rparr> =
     Inr \<lparr>shape = [2, 1], elems = [True, False]\<rparr>
   \<and> (\<exists>r. equals_unreshaped \<lparr>shape = [2, 1], elems = [3, 5 :: int]\<rparr> \<lparr>shape = [2], elems = [3, 4]\<rparr> = Inr r
          \<and> shape r = [2, 2])"
  using equals_is_examplewise [of "\<lparr>shape = [2, 1], elems = [3, 5 :: int]\<rparr>" 2 "\<lparr>shape = [2], elems = [3, 4]\<rparr>"]
  by (auto simp add: upt_rec wf_tensor_def)

section \<open>C10: the in-place resize of the single training step\<close>

lemma resize_keeps_pixels_iff:
  "keeps_pixels t (resize_inplace junk shp t) = (length (elems t) \<le> prod_list shp)"
proof (cases "length (elems t) \<le> prod_list shp")
  case True
  then show ?thesis
    by (cases "prod_list shp = length (elems t)")
       (simp_all add: keeps_pixels_def resize_inplace_def Let_def)
next
  case False
  then have lt: "prod_list shp < length (elems t)" by simp
  then have "length (take (length (elems t)) (take (prod_list shp) (elems t))) \<noteq> length (elems t)"
    by simp
  then have "take (length (elems t)) (take (prod_list shp) (elems t)) \<noteq> elems t" by metis
  with lt False show ?thesis by (simp add: keeps_pixels_def resize_inplace_def Let_def)
qed

lemma single_step_resize_cases:
  assumes "list_all (\<lambda>im. length im = 784) imgs"
  shows "keeps_pixels (collate imgs) (single_step_resize junk (collate imgs)) = (length imgs \<le> 64)"
    and "(elems (single_step_resize junk (collate imgs)) = elems (collate imgs)) = (length imgs = 64)"
    and "length imgs \<le> 64 \<Longrightarrow> length (elems (single_step_resize junk (collate imgs))) = 50176"
    and "length (elems (collate imgs)) = 784 * length imgs"
    and "length imgs \<le> 64 \<Longrightarrow>
           elems (single_step_resize junk (collate imgs))
             = elems (collate imgs) @ map junk [784 * length imgs..<50176]"
proof -
  have len: "length (elems (collate imgs)) = 784 * length imgs"
    using length_concat_uniform [OF assms] by (simp add: collate_def)
  then show "length (elems (collate imgs)) = 784 * length imgs" .
  have "keeps_pixels (collate imgs) (resize_inplace junk [64, 784] (collate imgs))
          = (length (elems (collate imgs)) \<le> prod_list [64, 784])"
    by (rule resize_keeps_pixels_iff)
  with len show "keeps_pixels (collate imgs) (single_step_resize junk (collate imgs)) = (length imgs \<le> 64)"
    by (simp add: single_step_resize_def)
  have "(elems (resize_inplace junk [64, 784] (collate imgs)) = elems (collate imgs))
          = (prod_list [64, 784] = length (elems (collate imgs)))"
    by (rule resize_keeps_iff)
  with len show "(elems (single_step_resize junk (collate imgs)) = elems (collate imgs)) = (length imgs = 64)"
    by (simp add: single_step_resize_def)
  show "length (elems (single_step_resize junk (collate imgs))) = 50176" if "length imgs \<le> 64"
    using that len by (simp add: single_step_resize_def resize_inplace_def Let_def)
  show "elems (single_step_resize junk (collate imgs))
          = elems (collate imgs) @ map junk [784 * length imgs..<50176]" if "length imgs \<le> 64"
  proof (cases "length imgs = 64")
    case True
    with len show ?thesis by (simp add: single_step_resize_def resize_inplace_def Let_def)
  next
    case False
    with that have "length imgs < 64" by simp
    with len show ?thesis by (simp add: single_step_resize_def resize_inplace_def Let_def)
  qed
qed

lemma loader_first_last:
  assumes "list_all (\<lambda>im. length im = 784) ds" and "length ds = 60000"
  shows "length (hd (batches 64 ds)) = 64" and "length (last (batches 64 ds)) = 32"
    and "list_all (\<lambda>im. length im = 784) (hd (batches 64 ds))"
    and "list_all (\<lambda>im. length im = 784) (last (batches 64 ds))"
proof -
  have ne: "ds \<noteq> []" using assms(2) by auto
  then have bne: "batches 64 ds \<noteq> []" by (simp add: batches_eq_Nil)
  have all: "list_all (\<lambda>im. length im = 784) b" if "b \<in> set (batches 64 ds)" for b
    using batches_subset [OF that] assms(1) by (auto simp add: list_all_iff)
  show "length (hd (batches 64 ds)) = 64"
    using ne assms(2) by (simp add: hd_batches)
  show "length (last (batches 64 ds)) = 32"
    using ne assms(2) by (simp add: length_last_batches)
  have "hd (batches 64 ds) \<in> set (batches 64 ds)" "last (batches 64 ds) \<in> set (batches 64 ds)"
    using bne by simp_all
  then show "list_all (\<lambda>im. length im = 784) (hd (batches 64 ds))"
       "list_all (\<lambda>im. length im = 784) (last (batches 64 ds))"
    using all by blast+
qed

text \<open>
  C10, as amended. For a batch of images of 784 pixels each, \<^verbatim>\<open>images.resize_(64, 784)\<close>
  keeps every pixel of the batch at its place exactly when the batch holds at most 64
  images, and its result holds the pixels of the batch and nothing else exactly when the
  batch holds 64 images; for a smaller batch the result is the pixels of the batch followed
  by uninitialised memory. With 60000 training examples and batches of 64, the first batch
  holds 64 images and is left as it was; the last batch holds 32 images, keeps its 25088
  pixels, and is padded with uninitialised memory to 50176 elements.
\<close>

theorem resize_keeps_pixels_up_to_full_batch:
  assumes "list_all (\<lambda>im. length im = 784) ds" and "length ds = 60000"
  shows "(\<forall>imgs. list_all (\<lambda>im. length im = 784) imgs \<longrightarrow>
            keeps_pixels (collate imgs) (single_step_resize junk (collate imgs)) = (length imgs \<le> 64)
          \<and> (elems (single_step_resize junk (collate imgs)) = elems (collate imgs)) = (length imgs = 64)
          \<and> (length imgs \<le> 64 \<longrightarrow>
                elems (single_step_resize junk (collate imgs))
                  = elems (collate imgs) @ map junk [784 * length imgs..<50176]))
       \<and> length (hd (batches 64 ds)) = 64
       \<and> elems (single_step_resize junk (collate (hd (batches 64 ds)))) = elems (collate (hd (batches 64 ds)))
       \<and> length (last (batches 64 ds)) = 32
       \<and> keeps_pixels (collate (last (batches 64 ds))) (single_step_resize junk (collate (last (batches 64 ds))))
       \<and> length (elems (collate (last (batches 64 ds)))) = 25088
       \<and> length (elems (single_step_resize junk (collate (last (batches 64 ds))))) = 50176"
proof -
  note fl = loader_first_last [OF assms]
  have gen: "\<forall>imgs. list_all (\<lambda>im. length im = 784) imgs \<longrightarrow>
            keeps_pixels (collate imgs) (single_step_resize junk (collate imgs)) = (length imgs \<le> 64)
          \<and> (elems (single_step_resize junk (collate imgs)) = elems (collate imgs)) = (length imgs = 64)
          \<and> (length imgs \<le> 64 \<longrightarrow>
                elems (single_step_resize junk (collate imgs))
                  = elems (collate imgs) @ map junk [784 * length imgs..<50176])"
    using single_step_resize_cases(1,2,5) by blast
  have h: "elems (single_step_resize junk (collate (hd (batches 64 ds)))) = elems (collate (hd (batches 64 ds)))"
    using single_step_resize_cases(2) [OF fl(3)] fl(1) by simp
  have k: "keeps_pixels (collate (last (batches 64 ds))) (single_step_resize junk (collate (last (batches 64 ds))))"
    using single_step_resize_cases(1) [OF fl(4)] fl(2) by simp
  have l1: "length (elems (collate (last (batches 64 ds)))) = 25088"
    using single_step_resize_cases(4) [OF fl(4)] fl(2) by simp
  have l2: "length (elems (single_step_resize junk (collate (last (batches 64 ds))))) = 50176"
    using single_step_resize_cases(3) [OF fl(4)] fl(2) by simp
  from gen fl(1,2) h k l1 l2 show ?thesis by blast
qed

theorem resize_keeps_pixels_up_to_full_batch_witness:
  "length (hd (batches 64 (replicate 60000 (replicate 784 (0::real))))) = 64
   \<and> length (last (batches 64 (replicate 60000 (replicate 784 (0::real))))) = 32
   \<and> keeps_pixels (collate (last (batches 64 (replicate 60000 (replicate 784 0)))))
        (single_step_resize (\<lambda>_. 7) (collate (last (batches 64 (replicate 60000 (replicate 784 0))))))
   \<and> length (elems (single_step_resize (\<lambda>_. 7) (collate (last (batches 64 (replicate 60000 (replicate 784 0))))))) = 50176"
proof -
  have a: "list_all (\<lambda>im. length im = 784) (replicate 60000 (replicate 784 (0::real)))"
    by (simp add: list_all_iff)
  have b: "length (replicate 60000 (replicate 784 (0::real))) = 60000" by simp
  show ?thesis using resize_keeps_pixels_up_to_full_batch [OF a b, of "\<lambda>_. 7"] by blast
qed

text \<open>
  The claim as first stated, that the pixel data is preserved only when the batch holds
  exactly 64 images, fails on the last batch of the loader: it holds 32 images and every
  one of its pixels is kept.
\<close>

theorem resize_only_full_batch_counterexample:
  "keeps_pixels (collate (last (batches 64 (replicate 60000 (replicate 784 0)))))
        (single_step_resize (\<lambda>_. 7) (collate (last (batches 64 (replicate 60000 (replicate 784 0))))))
   \<and> length (last (batches 64 (replicate 60000 (replicate 784 (0::real))))) \<noteq> 64"
proof -
  have a: "list_all (\<lambda>im. length im = 784) (replicate 60000 (replicate 784 (0::real)))"
    by (simp add: list_all_iff)
  have b: "length (replicate 60000 (replicate 784 (0::real))) = 60000" by simp
  note fl = loader_first_last [OF a b]
  from single_step_resize_cases(1) [OF fl(4), of "\<lambda>_. 7"] fl(2) show ?thesis by simp
qed

section \<open>C3: the values bound to the name logits\<close>

lemma sum_exp_nonneg: "0 \<le> sum_list (map exp (x :: real list))"
  by (induction x) simp_all

lemma sum_exp_pos: "x \<noteq> [] \<Longrightarrow> 0 < sum_list (map exp (x :: real list))"
proof (cases x)
  case Nil
  assume "x \<noteq> []"
  with Nil show ?thesis by simp
next
  case (Cons a xs)
  have "0 < exp a" by simp
  then have "0 < exp a + sum_list (map exp xs)"
    using sum_exp_nonneg [of xs] by (rule add_pos_nonneg)
  with Cons show ?thesis by simp
qed

lemma sum_list_map_divide: "sum_list (map (\<lambda>v. f v / (c::real)) xs) = sum_list (map f xs) / c"
  by (induction xs) (simp_all add: add_divide_distrib)

lemma log_softmax_normalised:
  assumes "x \<noteq> []"
  shows "sum_list (map exp (log_softmax x)) = 1"
proof -
  let ?S = "sum_list (map exp x)"
  have pos: "0 < ?S" using assms by (rule sum_exp_pos)
  have "sum_list (map exp (log_softmax x)) = sum_list (map (\<lambda>v. exp v / ?S) x)"
    using pos by (simp add: log_softmax_def comp_def exp_diff)
  also have "\<dots> = ?S / ?S" by (rule sum_list_map_divide)
  also have "\<dots> = 1" using pos by simp
  finally show ?thesis .
qed

lemma length_log_softmax [simp]: "length (log_softmax x) = length x"
  by (simp add: log_softmax_def)

lemma sequential_append:
  "sequential (ls @ ms) x = (case sequential ls x of Inl e \<Rightarrow> Inl e | Inr y \<Rightarrow> sequential ms y)"
  by (induction ls arbitrary: x) (auto split: sum.splits)

lemma on_rows_Inr_iff:
  "(on_rows f xs = Inr ys) = (length ys = length xs \<and> (\<forall>i<length xs. f (xs ! i) = Inr (ys ! i)))"
proof (induction xs arbitrary: ys)
  case Nil
  then show ?case by auto
next
  case (Cons x xs)
  show ?case
  proof (cases ys)
    case Nil
    then show ?thesis by (auto split: sum.splits)
  next
    case (Cons y ys')
    then show ?thesis using Cons.IH [of ys']
      by (auto split: sum.splits simp add: nth_Cons less_Suc_eq_0_disj split: nat.splits)
  qed
qed

lemma model_logsoftmax_snoc: "model_logsoftmax init = model_crossentropy init @ [LogSoftmax]"
  by (simp add: model_logsoftmax_def model_crossentropy_def)

lemma butlast_model_logsoftmax: "butlast (model_logsoftmax init) = model_crossentropy init"
  by (simp add: model_logsoftmax_snoc)

lemma sequential_logsoftmax:
  "sequential (model_logsoftmax init) x =
     (case sequential (model_crossentropy init) x of Inl e \<Rightarrow> Inl e | Inr y \<Rightarrow> Inr (log_softmax y))"
  by (simp add: model_logsoftmax_snoc sequential_append split: sum.splits)

lemma on_rows_map:
  "on_rows (\<lambda>x. case f x of Inl e \<Rightarrow> Inl e | Inr y \<Rightarrow> Inr (g y)) xs =
     (case on_rows f xs of Inl e \<Rightarrow> Inl e | Inr ys \<Rightarrow> Inr (map g ys))"
  by (induction xs) (auto split: sum.splits)

text \<open>The value the third cell binds to \<^verbatim>\<open>logits\<close> is the log-softmax of what the final
  linear layer puts out, for every initialisation and every batch.\<close>

lemma logits_cell_autograd_eq:
  "logits_cell_autograd init images =
     (case final_linear_output init images of Inl e \<Rightarrow> Inl e | Inr raw \<Rightarrow> Inr (map log_softmax raw))"
  unfolding logits_cell_autograd_def final_linear_output_def butlast_model_logsoftmax
  using on_rows_map [where f = "sequential (model_crossentropy init)" and g = log_softmax and xs = images]
  by (simp add: sequential_logsoftmax [abs_def])

lemma dot_zero: "sum_list (map2 (*) (replicate n (0::real)) x) = 0"
proof (induction n arbitrary: x)
  case 0
  then show ?case by simp
next
  case (Suc n)
  then show ?case by (cases x) simp_all
qed

lemma linear_zero:
  "length x = n \<Longrightarrow> linear (replicate m (replicate n 0)) (replicate m 0) x = Inr (replicate m 0)"
  by (simp add: linear_def list_all_iff dot_zero zip_replicate map_replicate_const)

lemma nn_Linear_zero:
  "nn_Linear n_in n_out (\<lambda>_ _. 0) (\<lambda>_. 0) = Linear (replicate n_out (replicate n_in 0)) (replicate n_out 0)"
  by (simp add: nn_Linear_def map_replicate_const)

lemma relu_zero: "relu (replicate m 0) = replicate m 0"
  by (simp add: relu_def)

lemma log_softmax_zero: "0 < m \<Longrightarrow> log_softmax (replicate m 0) = replicate m (- ln (real m))"
  by (simp add: log_softmax_def sum_list_replicate)

lemma crossentropy_zero:
  "sequential (model_crossentropy (\<lambda>_. (\<lambda>_ _. 0, \<lambda>_. 0))) (replicate 784 0) = Inr (replicate 10 0)"
  by (simp add: model_crossentropy_def nn_Linear_zero linear_zero relu_zero)

text \<open>
  C3. Every value bound to \<^verbatim>\<open>logits\<close> should be the raw output of the final linear layer.
  The third cell that binds the name breaks this: for a network whose parameters are all
  zero and one all-zero image, \<^verbatim>\<open>logits\<close> is the row of ten entries \<open>- ln 10\<close>, the log-softmax
  of the raw output, while the final linear layer put out ten zeros, which is what the
  two other cells bind to the same name.
\<close>

theorem logits_cell_autograd_not_raw:
  "logits_cell_autograd (\<lambda>_. (\<lambda>_ _. 0, \<lambda>_. 0)) [replicate 784 0] = Inr [replicate 10 (- ln 10)]
   \<and> final_linear_output (\<lambda>_. (\<lambda>_ _. 0, \<lambda>_. 0)) [replicate 784 0] = Inr [replicate 10 0]
   \<and> logits_cell_crossentropy (\<lambda>_. (\<lambda>_ _. 0, \<lambda>_. 0)) [replicate 784 0] = Inr [replicate 10 0]
   \<and> logits_cell_nll_exercise (\<lambda>_. (\<lambda>_ _. 0, \<lambda>_. 0)) [replicate 784 0] = Inr [replicate 10 0]"
proof -
  have raw: "final_linear_output (\<lambda>_. (\<lambda>_ _. 0, \<lambda>_. 0)) [replicate 784 0] = Inr [replicate 10 0]"
    by (simp add: final_linear_output_def butlast_model_logsoftmax crossentropy_zero)
  have "logits_cell_autograd (\<lambda>_. (\<lambda>_ _. 0, \<lambda>_. 0)) [replicate 784 0] = Inr [log_softmax (replicate 10 0)]"
    by (simp add: logits_cell_autograd_eq raw)
  moreover have "log_softmax (replicate 10 0) = replicate 10 (- ln 10)"
    using log_softmax_zero [of 10] by simp
  moreover have "logits_cell_crossentropy (\<lambda>_. (\<lambda>_ _. 0, \<lambda>_. 0)) [replicate 784 0] = Inr [replicate 10 0]"
    by (simp add: logits_cell_crossentropy_def crossentropy_zero)
  moreover have "logits_cell_nll_exercise (\<lambda>_. (\<lambda>_ _. 0, \<lambda>_. 0)) [replicate 784 0] = Inr [replicate 10 0]"
    by (simp add: logits_cell_nll_exercise_def crossentropy_zero)
  ultimately show ?thesis using raw by simp
qed

section \<open>C5: dropout in the classifier of Part 5\<close>
lemma dropout_eval [simp]: "dropout p False keep x = x"
  by (simp add: dropout_def)

lemma forward_normalised:
  assumes "forward m keep1 keep2 x = Inr y" and "y \<noteq> []"
  shows "sum_list (map exp y) = 1"
proof -
  from assms(1) obtain a3 where "y = log_softmax a3"
    by (auto simp add: forward_def Let_def split: sum.splits)
  with assms(2) show ?thesis using log_softmax_normalised [of a3] by (auto simp add: log_softmax_def)
qed

text \<open>
  C5. In evaluation mode, and so in the inference cell after \<^verbatim>\<open>model.eval()\<close>, the forward pass
  is the network without dropout, whatever the random samples are. In training mode, which
  a new model is in, the activations of each of the two hidden layers are masked and
  rescaled before the next layer, and nothing is masked after the output layer: every
  output row is a normalised row of log-probabilities.
\<close>

theorem dropout_only_in_training:
  "forward (model_eval m) keep1 keep2 x = sequential [fc1 m, ReLU, fc2 m, ReLU, fc3 m, LogSoftmax] x
   \<and> inference_cell m keep1 keep2 x = sequential [fc1 m, ReLU, fc2 m, ReLU, fc3 m, LogSoftmax] x
   \<and> forward (model_train m) keep1 keep2 x =
       (case sequential [fc1 m, ReLU] x of Inl e \<Rightarrow> Inl e | Inr h1 \<Rightarrow>
         (case sequential [fc2 m, ReLU]
                 (map (\<lambda>(i, v). if keep1 i then v / (1 - drop_p m) else 0) (enumerate 0 h1)) of
            Inl e \<Rightarrow> Inl e
          | Inr h2 \<Rightarrow>
              sequential [fc3 m, LogSoftmax]
                 (map (\<lambda>(i, v). if keep2 i then v / (1 - drop_p m) else 0) (enumerate 0 h2))))
   \<and> training (Classifier2 init)
   \<and> (\<forall>y. forward m keep1 keep2 x = Inr y \<longrightarrow> y \<noteq> [] \<longrightarrow> sum_list (map exp y) = 1)"
proof (intro conjI)
  show e: "forward (model_eval m) keep1 keep2 x = sequential [fc1 m, ReLU, fc2 m, ReLU, fc3 m, LogSoftmax] x"
    by (simp add: forward_def model_eval_def Let_def split: sum.splits)
  show "inference_cell m keep1 keep2 x = sequential [fc1 m, ReLU, fc2 m, ReLU, fc3 m, LogSoftmax] x"
    unfolding inference_cell_def by (rule e)
  show "forward (model_train m) keep1 keep2 x =
       (case sequential [fc1 m, ReLU] x of Inl e \<Rightarrow> Inl e | Inr h1 \<Rightarrow>
         (case sequential [fc2 m, ReLU]
                 (map (\<lambda>(i, v). if keep1 i then v / (1 - drop_p m) else 0) (enumerate 0 h1)) of
            Inl e \<Rightarrow> Inl e
          | Inr h2 \<Rightarrow>
              sequential [fc3 m, LogSoftmax]
                 (map (\<lambda>(i, v). if keep2 i then v / (1 - drop_p m) else 0) (enumerate 0 h2))))"
    by (simp add: forward_def model_train_def dropout_def Let_def split: sum.splits)
  show "training (Classifier2 init)" by (simp add: Classifier2_def)
  show "\<forall>y. forward m keep1 keep2 x = Inr y \<longrightarrow> y \<noteq> [] \<longrightarrow> sum_list (map exp y) = 1"
    using forward_normalised by blast
qed

theorem dropout_only_in_training_witness:
  "forward \<lparr>fc1 = Linear [[1]] [0], fc2 = Linear [[1]] [0], fc3 = Linear [[1], [1]] [0, 0],
            drop_p = 2 / 10, training = True\<rparr> (\<lambda>_. False) (\<lambda>_. True) [3] = Inr [- ln 2, - ln 2]
   \<and> sum_list (map exp [- ln 2, - ln (2::real)]) = 1
   \<and> inference_cell \<lparr>fc1 = Linear [[1]] [0], fc2 = Linear [[1]] [0], fc3 = Linear [[1], [1]] [0, 0],
            drop_p = 2 / 10, training = True\<rparr> (\<lambda>_. False) (\<lambda>_. True) [3] = Inr [3 - ln (2 * exp 3), 3 - ln (2 * exp 3)]"
proof -
  let ?m = "\<lparr>fc1 = Linear [[1]] [0], fc2 = Linear [[1]] [0], fc3 = Linear [[1], [1]] [0, 0],
            drop_p = 2 / 10, training = True\<rparr>"
  have f: "forward ?m (\<lambda>_. False) (\<lambda>_. True) [3] = Inr [- ln 2, - ln 2]"
    by (simp add: forward_def linear_def relu_def dropout_def log_softmax_def Let_def)
  have i: "sequential [fc1 ?m, ReLU, fc2 ?m, ReLU, fc3 ?m, LogSoftmax] [3] = Inr [3 - ln (2 * exp 3), 3 - ln (2 * exp 3)]"
    by (simp add: linear_def relu_def log_softmax_def)
  have "\<forall>y. forward ?m (\<lambda>_. False) (\<lambda>_. True) [3] = Inr y \<longrightarrow> y \<noteq> [] \<longrightarrow> sum_list (map exp y) = 1"
    and "inference_cell ?m (\<lambda>_. False) (\<lambda>_. True) [3] = sequential [fc1 ?m, ReLU, fc2 ?m, ReLU, fc3 ?m, LogSoftmax] [3]"
    using dropout_only_in_training [of ?m "\<lambda>_. False" "\<lambda>_. True" "[3]"] by blast+
  with f i show ?thesis by fastforce
qed

section \<open>Facts about library calls and training passes\<close>

lemma lib_call_nofault:
  "lib_call (nofault L) ev f s =
     (case f (logged ev s) of Inl e \<Rightarrow> Inl (e, logged ev s) | Inr r \<Rightarrow> Inr r)"
  by (simp add: lib_call_def nofault_def Let_def)

lemma pure_call_nofault:
  "pure_call (nofault L) ev r s =
     (case r of Inl e \<Rightarrow> Inl (e, logged ev s) | Inr a \<Rightarrow> Inr (a, logged ev s))"
  by (simp add: pure_call_def lib_call_nofault split: sum.splits)

lemma nofault_sel [simp]:
  "net (nofault L) = net L" "criterion (nofault L) = criterion L" "autograd (nofault L) = autograd L"
  "opt_step (nofault L) = opt_step L" "set_to_none (nofault L) = set_to_none L"
  "tie (nofault L) = tie L"
  by (simp_all add: nofault_def)

lemma gradient_graph:
  "gradient L (v, g, labels) = autograd L (g_weights g) (g_mode g) (g_rng g) (g_images g) labels"
  by (rule ext) (simp add: gradient_def)

lemmas call_defs = then_do_def model_call_def criterion_call_def backward_call_def step_call_def
  zero_grad_call_def item_call_def gradient_graph ret_def

lemma rest_exercise_nofault:
  fixes L :: "'o lib" and s :: "'o state" and im :: "real tensor" and labels :: "nat tensor"
  defines "G \<equiv> accumulate (grads s) (autograd L (weights s) (train_mode s) (rng s) im labels)"
  defines "ow \<equiv> opt_step L (opt s) (weights s) G"
  shows "then_do (model_call (nofault L) im) (\<lambda>out.
        then_do (criterion_call (nofault L) out labels) (\<lambda>loss.
        then_do (backward_call (nofault L) loss) (\<lambda>_.
        then_do (step_call (nofault L)) (\<lambda>_.
        then_do (zero_grad_call (nofault L)) (\<lambda>_.
        item_call (nofault L) loss))))) s =
     Inr (criterion L (net L (weights s) (train_mode s) (rng s) im) labels,
          s\<lparr>weights := snd ow, grads := zeroed (set_to_none L) G, opt := fst ow, rng := Suc (rng s),
            trace := trace s @
              [(Forward, weights s, grads s), (Loss, weights s, grads s),
               (Backward, weights s, grads s), (Step, weights s, G),
               (ZeroGrad, snd ow, G), (Item, snd ow, zeroed (set_to_none L) G)]\<rparr>)"
  unfolding G_def ow_def
  by (simp add: call_defs lib_call_nofault pure_call_nofault logged_def split_beta)

lemma pass_validation_nofault:
  fixes L :: "'o lib" and s :: "'o state" and im :: "real tensor" and labels :: "nat tensor"
  defines "G0 \<equiv> zeroed (set_to_none L) (grads s)"
  defines "G \<equiv> accumulate G0 (autograd L (weights s) (train_mode s) (rng s) im labels)"
  defines "ow \<equiv> opt_step L (opt s) (weights s) G"
  shows "training_pass_validation (nofault L) (im, labels) s =
     Inr (criterion L (net L (weights s) (train_mode s) (rng s) im) labels,
          s\<lparr>weights := snd ow, grads := G, opt := fst ow, rng := Suc (rng s),
            trace := trace s @
              [(ZeroGrad, weights s, grads s), (Forward, weights s, G0), (Loss, weights s, G0),
               (Backward, weights s, G0), (Step, weights s, G), (Item, snd ow, G)]\<rparr>)"
  unfolding G_def ow_def G0_def training_pass_validation_def
  by (simp add: call_defs lib_call_nofault pure_call_nofault logged_def split_beta)

lemma demonstrated_via_validation:
  "training_pass_demonstrated L (images, labels) =
     then_do (view_rows L images) (\<lambda>im. training_pass_validation L (im, labels))"
  by (simp add: training_pass_demonstrated_def training_pass_validation_def)

lemma view_rows_nofault:
  "view_rows (nofault L) t s =
     (case shape t of
        [] \<Rightarrow> Inl (IndexError ''tuple index out of range'', s)
      | n # sh \<Rightarrow> (case view_flat t n of
                    Inl e \<Rightarrow> Inl (e, logged View s)
                  | Inr t' \<Rightarrow> Inr (t', logged View s)))"
  by (simp add: view_rows_def pure_call_nofault raise_def split: list.splits)

lemma view_flat_elems: "view_flat t n = Inr t' \<Longrightarrow> elems t' = elems t"
  by (auto simp add: view_flat_def view_def split: if_splits)

lemma exercise_unfold:
  "training_pass_exercise L (images, labels) s =
     (case view_rows L images s of
        Inl x \<Rightarrow> Inl x
      | Inr (im, s1) \<Rightarrow>
          then_do (model_call L im) (\<lambda>out.
          then_do (criterion_call L out labels) (\<lambda>loss.
          then_do (backward_call L loss) (\<lambda>_.
          then_do (step_call L) (\<lambda>_.
          then_do (zero_grad_call L) (\<lambda>_.
          item_call L loss))))) s1)"
  by (simp add: training_pass_exercise_def then_do_def)

lemma demonstrated_unfold:
  "training_pass_demonstrated L (images, labels) s =
     (case view_rows L images s of
        Inl x \<Rightarrow> Inl x
      | Inr (im, s1) \<Rightarrow> training_pass_validation L (im, labels) s1)"
  by (simp add: demonstrated_via_validation then_do_def)


lemma then_doE:
  assumes "then_do m f s = Inr r"
  obtains a s1 where "m s = Inr (a, s1)" and "f a s1 = Inr r"
  using assms by (auto simp add: then_do_def split: sum.splits prod.splits)

lemma lib_call_events:
  assumes "lib_call L ev f s = Inr (a, s')"
    and "\<And>s1 a s2. f s1 = Inr (a, s2) \<Longrightarrow> trace s2 = trace s1"
  shows "map fst (trace s') = map fst (trace s) @ [ev]"
proof -
  from assms(1) have "f (logged ev s) = Inr (a, s')"
    by (auto simp add: lib_call_def Let_def split: option.splits sum.splits)
  from assms(2) [OF this] show ?thesis by (simp add: logged_def)
qed

lemma pure_call_events:
  "pure_call L ev r s = Inr (a, s') \<Longrightarrow> map fst (trace s') = map fst (trace s) @ [ev]"
  unfolding pure_call_def by (erule lib_call_events) (auto split: sum.splits)

lemma model_call_events:
  "model_call L im s = Inr (a, s') \<Longrightarrow> map fst (trace s') = map fst (trace s) @ [Forward]"
  unfolding model_call_def by (erule lib_call_events) auto

lemma criterion_call_events:
  "criterion_call L out labels s = Inr (a, s') \<Longrightarrow> map fst (trace s') = map fst (trace s) @ [Loss]"
  unfolding criterion_call_def by (rule pure_call_events)

lemma backward_call_events:
  "backward_call L loss s = Inr (a, s') \<Longrightarrow> map fst (trace s') = map fst (trace s) @ [Backward]"
  unfolding backward_call_def by (erule lib_call_events) auto

lemma step_call_events:
  "step_call L s = Inr (a, s') \<Longrightarrow> map fst (trace s') = map fst (trace s) @ [Step]"
  unfolding step_call_def by (erule lib_call_events) (auto split: prod.splits)

lemma zero_grad_call_events:
  "zero_grad_call L s = Inr (a, s') \<Longrightarrow> map fst (trace s') = map fst (trace s) @ [ZeroGrad]"
  unfolding zero_grad_call_def by (erule lib_call_events) auto

lemma item_call_events:
  "item_call L loss s = Inr (a, s') \<Longrightarrow> map fst (trace s') = map fst (trace s) @ [Item]"
  unfolding item_call_def by (rule pure_call_events)

lemma view_rows_events:
  "view_rows L t s = Inr (a, s') \<Longrightarrow> map fst (trace s') = map fst (trace s) @ [View]"
  by (auto simp add: view_rows_def raise_def split: list.splits dest: pure_call_events)

lemma accuracy_of_batch_events:
  assumes "accuracy_of_batch L log_ps labels s = Inr (a, s')"
  shows "map fst (trace s') = map fst (trace s) @ [Exp, Topk, View, Eq, Type, Mean]"
  using assms unfolding accuracy_of_batch_def
  by (auto elim!: then_doE dest!: pure_call_events)

lemma exercise_events:
  assumes "training_pass_exercise L b s = Inr (x, s')"
  shows "map fst (trace s') = map fst (trace s) @ [View, Forward, Loss, Backward, Step, ZeroGrad, Item]"
  using assms unfolding training_pass_exercise_def
  by (cases b)
     (auto elim!: then_doE dest!: view_rows_events model_call_events criterion_call_events
        backward_call_events step_call_events zero_grad_call_events item_call_events)

lemma validation_training_events:
  assumes "training_pass_validation L b s = Inr (x, s')"
  shows "map fst (trace s') = map fst (trace s) @ [ZeroGrad, Forward, Loss, Backward, Step, Item]"
  using assms unfolding training_pass_validation_def
  by (cases b)
     (auto elim!: then_doE dest!: view_rows_events model_call_events criterion_call_events
        backward_call_events step_call_events zero_grad_call_events item_call_events)

lemma dropout_training_events:
  assumes "training_pass_dropout L b s = Inr (x, s')"
  shows "map fst (trace s') = map fst (trace s) @
           [ZeroGrad, Forward, Loss, Backward, Step, Exp, Topk, View, Eq, Type, Mean]"
  using assms unfolding training_pass_dropout_def
  by (cases b)
     (auto elim!: then_doE dest!: model_call_events criterion_call_events
        backward_call_events step_call_events zero_grad_call_events accuracy_of_batch_events)

lemma ops_append: "map fst (trace s') = map fst (trace s) @ es \<Longrightarrow> ops s' = ops s @ filter is_training_op es"
  by (simp add: ops_def)

lemma run_batches_ops:
  assumes pass: "\<And>b s x s'. pass b s = Inr (x, s') \<Longrightarrow> ops s' = ops s @ pat"
  shows "run_batches pass bs a s = Inr (x, s') \<Longrightarrow> ops s' = ops s @ concat (replicate (length bs) pat)"
proof (induction bs arbitrary: a s)
  case Nil
  then show ?case by (simp add: ret_def)
next
  case (Cons b bs)
  from Cons.prems obtain l s1 where 1: "pass b s = Inr (l, s1)"
    and 2: "run_batches pass bs (a + l) s1 = Inr (x, s')"
    by (auto elim!: then_doE)
  from pass [OF 1] Cons.IH [OF 2] show ?case by simp
qed

lemma add_up_ops:
  assumes pass: "\<And>b s x s'. pass b s = Inr (x, s') \<Longrightarrow> ops s' = ops s @ pat"
  shows "add_up pass bs acc s = Inr (x, s') \<Longrightarrow> ops s' = ops s @ concat (replicate (length bs) pat)"
proof (induction bs arbitrary: acc s)
  case Nil
  then show ?case by (simp add: ret_def)
next
  case (Cons b bs)
  from Cons.prems obtain l s1 acc' where 1: "pass b s = Inr (l, s1)"
    and 2: "add_up pass bs acc' s1 = Inr (x, s')"
    by (auto elim!: then_doE)
  from pass [OF 1] Cons.IH [OF 2] show ?case by simp
qed

lemma length_accumulate [simp]: "length (accumulate gs d) = length gs"
  by (simp add: accumulate_def)

lemma length_zeroed [simp]: "length (zeroed tn gs) = length gs"
  by (simp add: zeroed_def)

lemma zeroish_zeroed [simp]: "zeroish (zeroed tn gs)"
  by (induction gs) (auto simp add: zeroish_def zeroed_def split: option.splits)

lemma zeroish_replicate_None [simp]: "zeroish (replicate n None)"
  by (induction n) (simp_all add: zeroish_def)

lemma accumulate_zeroish:
  assumes "zeroish gs"
  shows "accumulate gs d = map (\<lambda>i. Some (d i)) [0..<length gs]"
proof (rule nth_equalityI)
  show "length (accumulate gs d) = length (map (\<lambda>i. Some (d i)) [0..<length gs])" by simp
next
  fix i assume "i < length (accumulate gs d)"
  then have i: "i < length gs" by simp
  from assms i have "gs ! i = None \<or> gs ! i = Some 0"
    by (simp add: zeroish_def list_all_length)
  with i show "accumulate gs d ! i = map (\<lambda>i. Some (d i)) [0..<length gs] ! i"
    by (auto simp add: accumulate_def nth_enumerate_eq)
qed

lemma lib_call_InrD: "lib_call L ev f s = Inr r \<Longrightarrow> f (logged ev s) = Inr r"
  by (auto simp add: lib_call_def Let_def split: option.splits sum.splits)

lemma pure_call_InrD: "pure_call L ev r s = Inr (a, s') \<Longrightarrow> r = Inr a \<and> s' = logged ev s"
  by (auto simp add: pure_call_def dest!: lib_call_InrD split: sum.splits)

lemma view_rows_InrD:
  "view_rows L t s = Inr (im, s') \<Longrightarrow> elems im = elems t \<and> s' = logged View s"
  by (auto simp add: view_rows_def raise_def split: list.splits dest!: pure_call_InrD view_flat_elems)

lemma exercise_effect:
  fixes L :: "'o lib" and s :: "'o state"
  assumes "training_pass_exercise L (images, labels) s = Inr (x, s')"
  shows "\<exists>im. elems im = elems images \<and>
           s' = s\<lparr>weights := snd (opt_step L (opt s) (weights s)
                      (accumulate (grads s) (autograd L (weights s) (train_mode s) (rng s) im labels))),
                  grads := zeroed (set_to_none L)
                      (accumulate (grads s) (autograd L (weights s) (train_mode s) (rng s) im labels)),
                  opt := fst (opt_step L (opt s) (weights s)
                      (accumulate (grads s) (autograd L (weights s) (train_mode s) (rng s) im labels))),
                  rng := Suc (rng s),
                  trace := trace s @
                    [(View, weights s, grads s), (Forward, weights s, grads s), (Loss, weights s, grads s),
                     (Backward, weights s, grads s),
                     (Step, weights s,
                        accumulate (grads s) (autograd L (weights s) (train_mode s) (rng s) im labels)),
                     (ZeroGrad,
                        snd (opt_step L (opt s) (weights s)
                          (accumulate (grads s) (autograd L (weights s) (train_mode s) (rng s) im labels))),
                        accumulate (grads s) (autograd L (weights s) (train_mode s) (rng s) im labels)),
                     (Item,
                        snd (opt_step L (opt s) (weights s)
                          (accumulate (grads s) (autograd L (weights s) (train_mode s) (rng s) im labels))),
                        zeroed (set_to_none L)
                          (accumulate (grads s) (autograd L (weights s) (train_mode s) (rng s) im labels)))]\<rparr>"
proof -
  from assms obtain im s1 where v: "view_rows L images s = Inr (im, s1)"
    and rest: "then_do (model_call L im) (\<lambda>out.
          then_do (criterion_call L out labels) (\<lambda>loss.
          then_do (backward_call L loss) (\<lambda>_.
          then_do (step_call L) (\<lambda>_.
          then_do (zero_grad_call L) (\<lambda>_.
          item_call L loss))))) s1 = Inr (x, s')"
    unfolding exercise_unfold by (auto split: sum.splits prod.splits)
  from view_rows_InrD [OF v] have im: "elems im = elems images" and s1: "s1 = logged View s" by simp_all
  from rest have "s' = s1\<lparr>weights := snd (opt_step L (opt s1) (weights s1)
                      (accumulate (grads s1) (autograd L (weights s1) (train_mode s1) (rng s1) im labels))),
                  grads := zeroed (set_to_none L)
                      (accumulate (grads s1) (autograd L (weights s1) (train_mode s1) (rng s1) im labels)),
                  opt := fst (opt_step L (opt s1) (weights s1)
                      (accumulate (grads s1) (autograd L (weights s1) (train_mode s1) (rng s1) im labels))),
                  rng := Suc (rng s1),
                  trace := trace s1 @
                    [(Forward, weights s1, grads s1), (Loss, weights s1, grads s1),
                     (Backward, weights s1, grads s1),
                     (Step, weights s1,
                        accumulate (grads s1) (autograd L (weights s1) (train_mode s1) (rng s1) im labels)),
                     (ZeroGrad,
                        snd (opt_step L (opt s1) (weights s1)
                          (accumulate (grads s1) (autograd L (weights s1) (train_mode s1) (rng s1) im labels))),
                        accumulate (grads s1) (autograd L (weights s1) (train_mode s1) (rng s1) im labels)),
                     (Item,
                        snd (opt_step L (opt s1) (weights s1)
                          (accumulate (grads s1) (autograd L (weights s1) (train_mode s1) (rng s1) im labels))),
                        zeroed (set_to_none L)
                          (accumulate (grads s1) (autograd L (weights s1) (train_mode s1) (rng s1) im labels)))]\<rparr>"
    by (auto elim!: then_doE dest!: lib_call_InrD pure_call_InrD
          simp add: model_call_def criterion_call_def backward_call_def step_call_def
            zero_grad_call_def item_call_def gradient_graph logged_def split_beta)
  with s1 im show ?thesis by (intro exI [where x = im]) (simp add: logged_def)
qed

lemma run_batches_inv:
  assumes pass: "\<And>b s x s'. b \<in> B \<Longrightarrow> I s \<Longrightarrow> pass b s = Inr (x, s') \<Longrightarrow> I s'"
  shows "set bs \<subseteq> B \<Longrightarrow> I s \<Longrightarrow> run_batches pass bs a s = Inr (x, s') \<Longrightarrow> I s'"
proof (induction bs arbitrary: a s)
  case Nil
  then show ?case by (simp add: ret_def)
next
  case (Cons b bs)
  from Cons.prems(3) obtain l s1 where 1: "pass b s = Inr (l, s1)"
    and 2: "run_batches pass bs (a + l) s1 = Inr (x, s')"
    by (auto elim!: then_doE)
  from Cons.prems(1) have "b \<in> B" and sub: "set bs \<subseteq> B" by simp_all
  then have "I s1" using pass Cons.prems(2) 1 by blast
  from Cons.IH [OF sub this 2] show ?case .
qed

lemma print_InrD: "print v s = Inr (u, s') \<Longrightarrow> s' = s\<lparr>printed := printed s @ [v]\<rparr>"
  by (simp add: print_def)

lemma epoch_loss_inv:
  assumes pass: "\<And>b s x s'. b \<in> set bs \<Longrightarrow> I s \<Longrightarrow> pass b s = Inr (x, s') \<Longrightarrow> I s'"
    and pr: "\<And>s v. I s \<Longrightarrow> I (s\<lparr>printed := printed s @ [v]\<rparr>)"
    and "I s" and "epoch_loss pass bs s = Inr (u, s')"
  shows "I s'"
proof -
  from assms(4) obtain running s1 where 2: "run_batches pass bs 0 s = Inr (running, s1)"
    and 3: "(if length bs = 0 then raise ZeroDivisionError
             else print (Val (running / real (length bs)))) s1 = Inr (u, s')"
    unfolding epoch_loss_def by (auto elim!: then_doE)
  have "I s1"
    by (rule run_batches_inv [where I = I and B = "set bs" and pass = pass, OF pass _ assms(3) 2]) simp_all
  moreover from 3 have "s' = s1\<lparr>printed := printed s1 @ [Val (running / real (length bs))]\<rparr>"
    by (auto simp add: raise_def split: if_splits dest: print_InrD)
  ultimately show ?thesis using pr by simp
qed

lemma run_epochs_inv:
  assumes ep: "\<And>l s u s'. l \<in> B \<Longrightarrow> I s \<Longrightarrow> epoch l s = Inr (u, s') \<Longrightarrow> I s'"
  shows "set ls \<subseteq> B \<Longrightarrow> I s \<Longrightarrow> run_epochs epoch ls s = Inr (u, s') \<Longrightarrow> I s'"
proof (induction ls arbitrary: s)
  case Nil
  then show ?case by (simp add: ret_def)
next
  case (Cons l ls)
  from Cons.prems(3) obtain v s1 where 1: "epoch l s = Inr (v, s1)"
    and 2: "run_epochs epoch ls s1 = Inr (u, s')"
    by (auto elim!: then_doE)
  from Cons.prems(1) have "l \<in> B" and sub: "set ls \<subseteq> B" by simp_all
  then have "I s1" using ep Cons.prems(2) 1 by blast
  from Cons.IH [OF sub this 2] show ?case .
qed

lemmas run_defs = then_do_def model_call_def criterion_call_def backward_call_def step_call_def
  zero_grad_call_def item_call_def eval_call_def train_call_def pure_call_def view_rows_def view_flat_def
  view_def lib_call_def raise_def ret_def print_def Let_def logged_def gradient_graph
  accumulate_def zeroed_def sgd_def fresh_def example_lib_def example_batch_def epoch_loss_def

section \<open>C2: the order of the operations of a training pass\<close>

text \<open>
  C2, as amended. In every completed run of a training loop the five operations come in a
  fixed order in every iteration: forward pass, loss, backward pass, step of the optimizer,
  zeroing of the gradients in the loop of Part 3; zeroing of the gradients first, then
  forward pass, loss, backward pass and step in the two training loops of Part 5.
\<close>

theorem training_loops_order:
  "(run_batches (training_pass_exercise L) bs a s = Inr (x, s') \<longrightarrow>
      ops s' = ops s @ concat (replicate (length bs) [Forward, Loss, Backward, Step, ZeroGrad]))
   \<and> (run_batches (training_pass_validation L) bs a s = Inr (x, s') \<longrightarrow>
      ops s' = ops s @ concat (replicate (length bs) [ZeroGrad, Forward, Loss, Backward, Step]))
   \<and> (add_up (training_pass_dropout L) bs acc s = Inr (y, s') \<longrightarrow>
      ops s' = ops s @ concat (replicate (length bs) [ZeroGrad, Forward, Loss, Backward, Step]))"
proof (intro conjI impI)
  assume "run_batches (training_pass_exercise L) bs a s = Inr (x, s')"
  then show "ops s' = ops s @ concat (replicate (length bs) [Forward, Loss, Backward, Step, ZeroGrad])"
    by (rule run_batches_ops [rotated]) (drule exercise_events, drule ops_append, simp)
next
  assume "run_batches (training_pass_validation L) bs a s = Inr (x, s')"
  then show "ops s' = ops s @ concat (replicate (length bs) [ZeroGrad, Forward, Loss, Backward, Step])"
    by (rule run_batches_ops [rotated]) (drule validation_training_events, drule ops_append, simp)
next
  assume "add_up (training_pass_dropout L) bs acc s = Inr (y, s')"
  then show "ops s' = ops s @ concat (replicate (length bs) [ZeroGrad, Forward, Loss, Backward, Step])"
    by (rule add_up_ops [rotated]) (drule dropout_training_events, drule ops_append, simp)
qed

theorem training_loops_order_witness:
  "(\<exists>x s'. run_batches (training_pass_exercise example_lib) [example_batch] 0 (fresh [0] () 0) = Inr (x, s')
       \<and> ops s' = ops (fresh [0] () 0) @ concat (replicate (length [example_batch]) [Forward, Loss, Backward, Step, ZeroGrad]))
   \<and> (\<exists>x s'. run_batches (training_pass_validation example_lib) [example_batch] 0 (fresh [0] () 0) = Inr (x, s')
       \<and> ops s' = ops (fresh [0] () 0) @ concat (replicate (length [example_batch]) [ZeroGrad, Forward, Loss, Backward, Step]))
   \<and> (\<exists>y s'. add_up (training_pass_dropout example_lib) [example_batch] None (fresh [0] () 0) = Inr (y, s')
       \<and> ops s' = ops (fresh [0] () 0) @ concat (replicate (length [example_batch]) [ZeroGrad, Forward, Loss, Backward, Step]))"
proof -
  obtain x1 s1 where r1: "run_batches (training_pass_exercise example_lib) [example_batch] 0 (fresh [0] () 0) = Inr (x1, s1)"
    by (simp add: training_pass_exercise_def run_defs)
  obtain x2 s2 where r2: "run_batches (training_pass_validation example_lib) [example_batch] 0 (fresh [0] () 0) = Inr (x2, s2)"
    by (simp add: training_pass_validation_def run_defs)
  obtain y3 s3 where r3: "add_up (training_pass_dropout example_lib) [example_batch] None (fresh [0] () 0) = Inr (y3, s3)"
    by (simp add: training_pass_dropout_def accuracy_of_batch_def run_defs torch_exp_def topk1_def
      tensor_eq_def pad_shape_def bdim_def type_FloatTensor_def torch_mean_def)
  have "ops s1 = ops (fresh [0] () 0) @ concat (replicate (length [example_batch]) [Forward, Loss, Backward, Step, ZeroGrad])"
    using training_loops_order [where L = example_lib and bs = "[example_batch]" and a = 0
        and s = "fresh [0] () 0" and x = x1 and s' = s1] r1 by blast
  moreover have "ops s2 = ops (fresh [0] () 0) @ concat (replicate (length [example_batch]) [ZeroGrad, Forward, Loss, Backward, Step])"
    using training_loops_order [where L = example_lib and bs = "[example_batch]" and a = 0
        and s = "fresh [0] () 0" and x = x2 and s' = s2] r2 by blast
  moreover have "ops s3 = ops (fresh [0] () 0) @ concat (replicate (length [example_batch]) [ZeroGrad, Forward, Loss, Backward, Step])"
    using training_loops_order [where L = example_lib and bs = "[example_batch]" and acc = None
        and s = "fresh [0] () 0" and y = y3 and s' = s3] r3 by blast
  ultimately show ?thesis using r1 r2 r3 by blast
qed

text \<open>The order the claim states for every loop is not the order of the loops of Part 5.\<close>

theorem training_loops_order_counterexample:
  "ops (final_state (training_pass_validation example_lib example_batch (fresh [0] () 0)))
     = [ZeroGrad, Forward, Loss, Backward, Step]
   \<and> ops (final_state (training_pass_validation example_lib example_batch (fresh [0] () 0)))
     \<noteq> [Forward, Loss, Backward, Step, ZeroGrad]"
  by (simp add: training_pass_validation_def run_defs final_state_def ops_def)

section \<open>C8: one batch per step in the loop of Part 3\<close>

lemma train_exercise_one_batch:
  fixes L :: "'o lib"
  assumes run: "train_exercise L loaders (fresh w0 o0 r0) = Inr (u, s')"
  shows "(\<forall>g \<in> set (grads_at Backward s'). zeroish g)
       \<and> (\<forall>(w, g) \<in> set (updates s').
            \<exists>(images, labels) \<in> set (concat loaders). \<exists>im m r.
              elems im = elems images \<and>
              g = map (\<lambda>i. Some (autograd L w m r im labels i)) [0..<length w0])"
proof -
  define Q where "Q = (\<lambda>(w :: real list, g :: real option list).
      \<exists>(images, labels) \<in> set (concat loaders). \<exists>im m r.
         elems im = elems images \<and>
         g = map (\<lambda>i. Some (autograd L w m r im labels i)) [0..<length w0])"
  define I where "I = (\<lambda>s :: 'o state. zeroish (grads s) \<and> length (grads s) = length w0
      \<and> (\<forall>g \<in> set (grads_at Backward s). zeroish g) \<and> (\<forall>c \<in> set (updates s). Q c))"
  have init: "I (fresh w0 o0 r0)"
    by (simp add: I_def fresh_def grads_at_def updates_def)
  have pass: "I t'" if b: "b \<in> set (concat loaders)" and t: "I t"
    and p: "training_pass_exercise L b t = Inr (x, t')" for b t x t'
  proof -
    obtain images labels where bb: "b = (images, labels)" by (cases b)
    from exercise_effect [OF p [unfolded bb]] obtain im where im: "elems im = elems images"
      and g: "grads t' = zeroed (set_to_none L)
                 (accumulate (grads t) (autograd L (weights t) (train_mode t) (rng t) im labels))"
      and bw: "grads_at Backward t' = grads_at Backward t @ [grads t]"
      and up: "updates t' = updates t @
                 [(weights t, accumulate (grads t) (autograd L (weights t) (train_mode t) (rng t) im labels))]"
      by (auto simp add: grads_at_def updates_def)
    from t have z: "zeroish (grads t)" and len: "length (grads t) = length w0"
      by (simp_all add: I_def)
    have "accumulate (grads t) (autograd L (weights t) (train_mode t) (rng t) im labels)
            = map (\<lambda>i. Some (autograd L (weights t) (train_mode t) (rng t) im labels i)) [0..<length w0]"
      using accumulate_zeroish [OF z] len by simp
    with im have "\<exists>im' m r. elems im' = elems images \<and>
         accumulate (grads t) (autograd L (weights t) (train_mode t) (rng t) im labels)
            = map (\<lambda>i. Some (autograd L (weights t) m r im' labels i)) [0..<length w0]"
      by blast
    with b bb have "Q (weights t, accumulate (grads t) (autograd L (weights t) (train_mode t) (rng t) im labels))"
      unfolding Q_def by blast
    with t g bw up z len show ?thesis by (auto simp add: I_def)
  qed
  have pr: "I (s\<lparr>printed := printed s @ [v]\<rparr>)" if "I s" for s v
    using that by (simp add: I_def grads_at_def updates_def)
  have ep: "I t'" if l: "l \<in> set loaders" and t: "I t"
    and e: "epoch_loss (training_pass_exercise L) l t = Inr (v, t')" for l t v t'
  proof (rule epoch_loss_inv [where I = I and pass = "training_pass_exercise L" and bs = l and s = t])
    fix b s x s2 assume "b \<in> set l" "I s" "training_pass_exercise L b s = Inr (x, s2)"
    with l show "I s2" using pass [of b s x s2] by auto
  next
    fix s v assume "I s" then show "I (s\<lparr>printed := printed s @ [v]\<rparr>)" by (rule pr)
  next
    show "I t" by (rule t)
  next
    show "epoch_loss (training_pass_exercise L) l t = Inr (v, t')" by (rule e)
  qed
  have "I s'"
  proof (rule run_epochs_inv [where I = I and B = "set loaders"
        and epoch = "epoch_loss (training_pass_exercise L)" and ls = loaders])
    show "set loaders \<subseteq> set loaders" by simp
    show "I (fresh w0 o0 r0)" by (rule init)
    show "run_epochs (epoch_loss (training_pass_exercise L)) loaders (fresh w0 o0 r0) = Inr (u, s')"
      using run by (simp add: train_exercise_def)
  qed (rule ep)
  then show ?thesis by (auto simp add: I_def Q_def)
qed

lemma DataLoader_single: "DataLoader [(x, y)] = [(collate [x], \<lparr>shape = [1], elems = [y]\<rparr>)]"
  by (simp add: DataLoader_def batches_short)

lemma upt_5: "[0..<5] = [0, 1, 2, 3, 4]"
  by (simp add: upt_rec)

text \<open>
  C8. In a completed run of the training loop of Part 3 from a new model, and so in a
  completed run of the cell of the exercise, every call of
  \<^verbatim>\<open>loss.backward()\<close> finds all gradient buffers zero or unset, and the gradients every
  \<^verbatim>\<open>optimizer.step()\<close> applies are the gradient of the loss of one batch of the loader at
  the parameters of that moment.
\<close>

theorem exercise_steps_one_batch:
  fixes L :: "'o lib" and K :: "unit lib"
  shows "(train_exercise L loaders (fresh w0 o0 r0) = Inr (u, s') \<longrightarrow>
           (\<forall>g \<in> set (grads_at Backward s'). zeroish g)
         \<and> (\<forall>(w, g) \<in> set (updates s').
              \<exists>(images, labels) \<in> set (concat loaders). \<exists>im m r.
                elems im = elems images \<and>
                g = map (\<lambda>i. Some (autograd L w m r im labels i)) [0..<length w0]))
       \<and> (cell_exercise K v0 q0 trainset = Inr (u', t') \<longrightarrow>
           (\<forall>g \<in> set (grads_at Backward t'). zeroish g)
         \<and> (\<forall>(w, g) \<in> set (updates t').
              \<exists>(images, labels) \<in> set (concat (map (\<lambda>e. DataLoader (trainset e)) [0..<5])). \<exists>im m r.
                elems im = elems images \<and>
                g = map (\<lambda>i. Some (autograd K w m r im labels i)) [0..<length v0]))"
proof (intro conjI impI)
  assume run: "train_exercise L loaders (fresh w0 o0 r0) = Inr (u, s')"
  from train_exercise_one_batch [OF run]
  show "\<forall>g \<in> set (grads_at Backward s'). zeroish g"
    and "\<forall>(w, g) \<in> set (updates s').
              \<exists>(images, labels) \<in> set (concat loaders). \<exists>im m r.
                elems im = elems images \<and>
                g = map (\<lambda>i. Some (autograd L w m r im labels i)) [0..<length w0]"
    by blast+
next
  assume "cell_exercise K v0 q0 trainset = Inr (u', t')"
  then have run: "train_exercise (K\<lparr>opt_step := sgd (3 / 1000)\<rparr>)
       (map (\<lambda>e. DataLoader (trainset e)) [0..<5]) (fresh v0 () q0) = Inr (u', t')"
    by (simp add: cell_exercise_def)
  have a: "autograd (K\<lparr>opt_step := sgd (3 / 1000)\<rparr>) = autograd K" by simp
  from train_exercise_one_batch [OF run, unfolded a]
  show "\<forall>g \<in> set (grads_at Backward t'). zeroish g"
    and "\<forall>(w, g) \<in> set (updates t').
              \<exists>(images, labels) \<in> set (concat (map (\<lambda>e. DataLoader (trainset e)) [0..<5])). \<exists>im m r.
                elems im = elems images \<and>
                g = map (\<lambda>i. Some (autograd K w m r im labels i)) [0..<length v0]"
    by blast+
qed

theorem exercise_steps_one_batch_witness:
  "(\<exists>u s'. train_exercise example_lib [[example_batch]] (fresh [0] () 0) = Inr (u, s')
      \<and> (\<forall>g \<in> set (grads_at Backward s'). zeroish g)
      \<and> (\<forall>(w, g) \<in> set (updates s').
            \<exists>(images, labels) \<in> set (concat [[example_batch]]). \<exists>im m r.
              elems im = elems images \<and>
              g = map (\<lambda>i. Some (autograd example_lib w m r im labels i)) [0..<length [0::real]]))
   \<and> (\<exists>u t'. cell_exercise example_lib [0] 0 (\<lambda>e. [(replicate 784 0, 0)]) = Inr (u, t')
      \<and> (\<forall>g \<in> set (grads_at Backward t'). zeroish g)
      \<and> (\<forall>(w, g) \<in> set (updates t').
            \<exists>(images, labels) \<in> set (concat (map (\<lambda>e. DataLoader [(replicate 784 0, 0)]) [0..<5])). \<exists>im m r.
              elems im = elems images \<and>
              g = map (\<lambda>i. Some (autograd example_lib w m r im labels i)) [0..<length [0::real]]))"
proof -
  obtain u s' where run: "train_exercise example_lib [[example_batch]] (fresh [0] () 0) = Inr (u, s')"
    by (simp add: train_exercise_def training_pass_exercise_def run_defs)
  obtain v t' where cell: "cell_exercise example_lib [0] 0 (\<lambda>e. [(replicate 784 0, 0)]) = Inr (v, t')"
    by (simp add: cell_exercise_def DataLoader_single train_exercise_def training_pass_exercise_def
        run_defs collate_def upt_5)
  from exercise_steps_one_batch [where L = example_lib and loaders = "[[example_batch]]"
      and ?w0.0 = "[0]" and ?o0.0 = "()" and ?r0.0 = 0 and u = u and s' = s'
      and K = example_lib and ?v0.0 = "[0]" and ?q0.0 = 0 and trainset = "\<lambda>e. [(replicate 784 0, 0)]"
      and u' = v and t' = t'] run cell
  show ?thesis by blast
qed

section \<open>C4: zeroing the gradients last or first\<close>

lemma agree_refl: "zeroish (grads s) \<Longrightarrow> agree s s"
  by (simp add: agree_def)

lemma agree_logged: "agree s1 s2 \<Longrightarrow> ev \<noteq> Step \<Longrightarrow> agree (logged ev s1) (logged ev s2)"
  by (simp add: agree_def logged_def updates_def)

lemma agree_printed: "agree s1 s2 \<Longrightarrow> agree (s1\<lparr>printed := printed s1 @ [v]\<rparr>) (s2\<lparr>printed := printed s2 @ [v]\<rparr>)"
  by (simp add: agree_def updates_def)

lemma rest_agree:
  fixes L :: "'o lib"
  assumes "agree s1 s2"
  shows "same_outcome
     (then_do (model_call (nofault L) im) (\<lambda>out.
        then_do (criterion_call (nofault L) out labels) (\<lambda>loss.
        then_do (backward_call (nofault L) loss) (\<lambda>_.
        then_do (step_call (nofault L)) (\<lambda>_.
        then_do (zero_grad_call (nofault L)) (\<lambda>_.
        item_call (nofault L) loss))))) s1)
     (training_pass_validation (nofault L) (im, labels) s2)"
proof -
  from assms have eq: "weights s1 = weights s2" "opt s1 = opt s2" "train_mode s1 = train_mode s2"
    "rng s1 = rng s2" "printed s1 = printed s2" "updates s1 = updates s2"
    and len: "length (grads s1) = length (grads s2)" and z: "zeroish (grads s1)"
    by (simp_all add: agree_def)
  let ?d = "autograd L (weights s2) (train_mode s2) (rng s2) im labels"
  have "accumulate (grads s1) ?d = map (\<lambda>i. Some (?d i)) [0..<length (grads s1)]"
    using z by (rule accumulate_zeroish)
  moreover have "accumulate (zeroed (set_to_none L) (grads s2)) ?d = map (\<lambda>i. Some (?d i)) [0..<length (grads s2)]"
    using accumulate_zeroish [of "zeroed (set_to_none L) (grads s2)" ?d] by simp
  ultimately have G: "accumulate (grads s1) ?d = accumulate (zeroed (set_to_none L) (grads s2)) ?d"
    using len by simp
  show ?thesis
    unfolding rest_exercise_nofault pass_validation_nofault
    using eq(6) [unfolded updates_def]
    by (simp add: same_outcome_def agree_def eq(1-5) G [symmetric] updates_def len)
qed

lemma pass_agree:
  fixes L :: "'o lib"
  assumes "agree s1 s2"
  shows "same_outcome (training_pass_exercise (nofault L) b s1) (training_pass_demonstrated (nofault L) b s2)"
proof -
  obtain images labels where b: "b = (images, labels)" by (cases b)
  show ?thesis
  proof (cases "shape images")
    case Nil
    then show ?thesis using assms
      by (simp add: b exercise_unfold demonstrated_unfold view_rows_nofault same_outcome_def)
  next
    case (Cons n sh)
    show ?thesis
    proof (cases "view_flat images n")
      case (Inl e)
      then show ?thesis using assms Cons
        by (simp add: b exercise_unfold demonstrated_unfold view_rows_nofault same_outcome_def agree_logged)
    next
      case (Inr im)
      have "agree (logged View s1) (logged View s2)" using assms by (simp add: agree_logged)
      from rest_agree [OF this, of L im labels] show ?thesis using Cons Inr
        by (simp add: b exercise_unfold demonstrated_unfold view_rows_nofault)
    qed
  qed
qed

lemma then_do_same:
  assumes "same_outcome (m1 s1) (m2 s2)"
    and "\<And>a t1 t2. agree t1 t2 \<Longrightarrow> same_outcome (f1 a t1) (f2 a t2)"
  shows "same_outcome (then_do m1 f1 s1) (then_do m2 f2 s2)"
proof (cases "m1 s1")
  case (Inl x)
  with assms(1) show ?thesis
    by (auto simp add: same_outcome_def then_do_def split: sum.splits prod.splits)
next
  case (Inr y)
  obtain a t1 where y: "y = (a, t1)" by (cases y)
  from assms(1) Inr y obtain t2 where 2: "m2 s2 = Inr (a, t2)" and ag: "agree t1 t2"
    by (auto simp add: same_outcome_def split: sum.splits prod.splits)
  from assms(2) [OF ag, of a] show ?thesis using Inr y 2 by (simp add: then_do_def)
qed

lemma ret_same: "agree t1 t2 \<Longrightarrow> same_outcome (ret a t1) (ret a t2)"
  by (simp add: same_outcome_def ret_def)

lemma raise_same: "agree t1 t2 \<Longrightarrow> same_outcome (raise e t1) (raise e t2)"
  by (simp add: same_outcome_def raise_def)

lemma print_same: "agree t1 t2 \<Longrightarrow> same_outcome (print v t1) (print v t2)"
  by (simp add: same_outcome_def print_def agree_printed)

lemma run_batches_same:
  assumes pass: "\<And>b t1 t2. agree t1 t2 \<Longrightarrow> same_outcome (p1 b t1) (p2 b t2)"
  shows "agree s1 s2 \<Longrightarrow> same_outcome (run_batches p1 bs a s1) (run_batches p2 bs a s2)"
proof (induction bs arbitrary: a s1 s2)
  case Nil
  then show ?case by (simp add: ret_same)
next
  case (Cons b bs)
  show ?case
    unfolding run_batches.simps
    by (rule then_do_same) (rule pass [OF Cons.prems], rule Cons.IH)
qed

lemma epoch_loss_same:
  assumes pass: "\<And>b t1 t2. agree t1 t2 \<Longrightarrow> same_outcome (p1 b t1) (p2 b t2)"
    and "agree s1 s2"
  shows "same_outcome (epoch_loss p1 bs s1) (epoch_loss p2 bs s2)"
  unfolding epoch_loss_def
proof (rule then_do_same)
  show "same_outcome (run_batches p1 bs 0 s1) (run_batches p2 bs 0 s2)"
    by (rule run_batches_same [OF pass assms(2)])
next
  fix a :: real and t1 t2 :: "'a state"
  assume "agree t1 t2"
  then show "same_outcome
         ((if length bs = 0 then raise ZeroDivisionError else print (Val (a / real (length bs)))) t1)
         ((if length bs = 0 then raise ZeroDivisionError else print (Val (a / real (length bs)))) t2)"
    by (cases "length bs = 0") (simp_all add: raise_same print_same)
qed

lemma run_epochs_same:
  assumes ep: "\<And>l t1 t2. agree t1 t2 \<Longrightarrow> same_outcome (e1 l t1) (e2 l t2)"
  shows "agree s1 s2 \<Longrightarrow> same_outcome (run_epochs e1 ls s1) (run_epochs e2 ls s2)"
proof (induction ls arbitrary: s1 s2)
  case Nil
  then show ?case by (simp add: ret_same)
next
  case (Cons l ls)
  show ?case
    unfolding run_epochs.simps
    by (rule then_do_same) (rule ep [OF Cons.prems], rule Cons.IH)
qed

lemma train_same:
  fixes L :: "'o lib"
  assumes "zeroish (grads s)"
  shows "same_outcome (train_exercise (nofault L) loaders s) (train_demonstrated (nofault L) loaders s)"
  unfolding train_exercise_def train_demonstrated_def
  by (rule run_epochs_same [OF _ agree_refl [OF assms]]) (rule epoch_loss_same, rule pass_agree)

lemma same_outcome_final:
  assumes "same_outcome r1 r2"
  shows "updates (final_state r1) = updates (final_state r2)
       \<and> weights (final_state r1) = weights (final_state r2)
       \<and> opt (final_state r1) = opt (final_state r2)
       \<and> printed (final_state r1) = printed (final_state r2)
       \<and> isl r1 = isl r2"
  using assms
  by (auto simp add: same_outcome_def final_state_def agree_def split: sum.splits prod.splits)

text \<open>
  C4. When no library call fails and all gradient buffers are zero or unset at the start,
  the training loop of the exercise and the loop that clears the gradients first make
  the same updates, one after the other, end with the same parameters and optimizer
  state, print the same losses, and both return or both raise.
\<close>

theorem exercise_refines_demonstrated:
  fixes L :: "'o lib"
  assumes "zeroish (grads s)"
  shows "updates (final_state (train_exercise (nofault L) loaders s))
           = updates (final_state (train_demonstrated (nofault L) loaders s))
       \<and> weights (final_state (train_exercise (nofault L) loaders s))
           = weights (final_state (train_demonstrated (nofault L) loaders s))
       \<and> opt (final_state (train_exercise (nofault L) loaders s))
           = opt (final_state (train_demonstrated (nofault L) loaders s))
       \<and> printed (final_state (train_exercise (nofault L) loaders s))
           = printed (final_state (train_demonstrated (nofault L) loaders s))
       \<and> isl (train_exercise (nofault L) loaders s) = isl (train_demonstrated (nofault L) loaders s)"
  by (rule same_outcome_final) (rule train_same [OF assms])

theorem exercise_refines_demonstrated_witness:
  "updates (final_state (train_exercise (nofault example_lib) [[example_batch, example_batch]] (fresh [0] () 0)))
     = updates (final_state (train_demonstrated (nofault example_lib) [[example_batch, example_batch]] (fresh [0] () 0)))
   \<and> weights (final_state (train_exercise (nofault example_lib) [[example_batch, example_batch]] (fresh [0] () 0)))
     = weights (final_state (train_demonstrated (nofault example_lib) [[example_batch, example_batch]] (fresh [0] () 0)))
   \<and> updates (final_state (train_exercise (nofault example_lib) [[example_batch, example_batch]] (fresh [0] () 0)))
     = [([0], [Some 1]), ([- (3 / 1000)], [Some 1])]"
proof -
  have z: "zeroish (grads (fresh [0] () 0 :: unit state))"
    by (simp add: fresh_def zeroish_def)
  have u: "updates (final_state (train_exercise (nofault example_lib) [[example_batch, example_batch]] (fresh [0] () 0)))
     = [([0], [Some 1]), ([- (3 / 1000)], [Some 1])]"
    by (simp add: train_exercise_def training_pass_exercise_def run_defs nofault_def final_state_def updates_def)
  from exercise_refines_demonstrated [OF z, of example_lib "[[example_batch, example_batch]]"] u
  show ?thesis by blast
qed

lemma single_step_nofault:
  fixes L :: "'o lib" and s :: "'o state" and im :: "real tensor" and labels :: "nat tensor"
    and junk :: "nat \<Rightarrow> real"
  defines "G0 \<equiv> zeroed (set_to_none L) (grads s)"
  defines "G \<equiv> accumulate G0 (autograd L (weights s) (train_mode s) (rng s) (single_step_resize junk im) labels)"
  defines "ow \<equiv> opt_step L (opt s) (weights s) G"
  shows "single_step (nofault L) junk (im, labels) s =
     Inr ((criterion L (net L (weights s) (train_mode s) (rng s) (single_step_resize junk im)) labels,
           \<lparr>g_weights = weights s, g_mode = train_mode s, g_rng = rng s,
            g_images = single_step_resize junk im\<rparr>, labels),
          s\<lparr>weights := snd ow, grads := G, opt := fst ow, rng := Suc (rng s),
            trace := trace s @
              [(Resize, weights s, grads s), (ZeroGrad, weights s, grads s), (Forward, weights s, G0),
               (Loss, weights s, G0), (Backward, weights s, G0), (Step, weights s, G)]\<rparr>)"
  unfolding G_def ow_def G0_def single_step_def
  by (simp add: call_defs lib_call_nofault pure_call_nofault logged_def split_beta)

lemma resize_full_batch:
  assumes "list_all (\<lambda>im. length im = 784) imgs" and "length imgs = 64"
  shows "single_step_resize junk (collate imgs) = \<lparr>shape = [64, 784], elems = concat imgs\<rparr>"
    and "view_flat (collate imgs) 64 = Inr \<lparr>shape = [64, 784], elems = concat imgs\<rparr>"
proof -
  have len: "length (concat imgs) = 784 * 64"
    using length_concat_uniform [OF assms(1)] assms(2) by simp
  show "single_step_resize junk (collate imgs) = \<lparr>shape = [64, 784], elems = concat imgs\<rparr>"
    using len by (simp add: single_step_resize_def resize_inplace_def collate_def)
  show "view_flat (collate imgs) 64 = Inr \<lparr>shape = [64, 784], elems = concat imgs\<rparr>"
    using len by (simp add: view_flat_def view_def collate_def)
qed

text \<open>On a batch of 64 images of 784 pixels, the two cells of the demonstration make the
  update of the pass that clears the gradients first.\<close>

lemma single_step_is_demonstrated_pass:
  fixes L :: "'o lib"
  assumes "list_all (\<lambda>im. length im = 784) imgs" and "length imgs = 64"
  shows "updates (final_state (single_step (nofault L) junk (collate imgs, labels) s))
           = updates (final_state (training_pass_demonstrated (nofault L) (collate imgs, labels) s))
       \<and> weights (final_state (single_step (nofault L) junk (collate imgs, labels) s))
           = weights (final_state (training_pass_demonstrated (nofault L) (collate imgs, labels) s))
       \<and> opt (final_state (single_step (nofault L) junk (collate imgs, labels) s))
           = opt (final_state (training_pass_demonstrated (nofault L) (collate imgs, labels) s))"
proof -
  have sh: "shape (collate imgs) = 64 # [1, 28, 28]" using assms(2) by (simp add: collate_def)
  have d: "training_pass_demonstrated (nofault L) (collate imgs, labels) s
        = training_pass_validation (nofault L) (\<lparr>shape = [64, 784], elems = concat imgs\<rparr>, labels) (logged View s)"
    by (simp add: demonstrated_unfold view_rows_nofault sh resize_full_batch(2) [OF assms])
  show ?thesis
    unfolding d single_step_nofault pass_validation_nofault resize_full_batch(1) [OF assms]
    by (simp add: final_state_def updates_def logged_def)
qed

section \<open>C6: errors of library calls are left alone\<close>








































section \<open>C1: the accuracy the validation loops compute\<close>

lemma py_sum_Val: "foldl scalar_add (Val a) (map Val xs) = Val (a + sum_list xs)"
  by (induction xs arbitrary: a) (simp_all add: add.assoc)

lemma nofault_constant_lib: "nofault constant_lib = constant_lib"
  by (simp add: nofault_def constant_lib_def example_lib_def)

lemma pure_call_constant:
  "pure_call constant_lib ev r s =
     (case r of Inl e \<Rightarrow> Inl (e, logged ev s) | Inr a \<Rightarrow> Inr (a, logged ev s))"
  using pure_call_nofault [of constant_lib ev r s] by (simp add: nofault_constant_lib)

lemma lib_call_constant:
  "lib_call constant_lib ev f s =
     (case f (logged ev s) of Inl e \<Rightarrow> Inl (e, logged ev s) | Inr r \<Rightarrow> Inr r)"
  using lib_call_nofault [of constant_lib ev f s] by (simp add: nofault_constant_lib)

lemma constant_lib_sel [simp]: "net constant_lib = constant_net"
  by (simp add: constant_lib_def)

lemma largest_at_unique:
  assumes "list_all (\<lambda>y. y < x) ys"
  shows "largest_at (x # ys) = [0]"
proof -
  have ys: "\<And>y. y \<in> set ys \<Longrightarrow> y < x" using assms by (simp add: list_all_iff)
  have up: "[0..<length (x # ys)] = 0 # map Suc [0..<length ys]"
    by (simp add: upt_conv_Cons map_Suc_upt del: upt_Suc)
  have first: "list_all (\<lambda>y. y \<le> (x # ys) ! 0) (x # ys)"
    using ys by (auto simp add: list_all_iff intro: less_imp_le)
  have rest: "filter (\<lambda>i. list_all (\<lambda>y. y \<le> (x # ys) ! i) (x # ys)) (map Suc [0..<length ys]) = []"
  proof -
    have "\<not> list_all (\<lambda>y. y \<le> (x # ys) ! Suc i) (x # ys)" if "i < length ys" for i
    proof -
      from that have "ys ! i \<in> set ys" by simp
      then have "ys ! i < x" by (rule ys)
      then show ?thesis by simp
    qed
    then show ?thesis by (auto simp add: filter_empty_conv)
  qed
  show ?thesis
    unfolding largest_at_def up using first rest by simp
qed

lemma argmax_unique:
  assumes "list_all (\<lambda>y. y < x) ys"
  shows "argmax pick (x # ys) = 0"
  unfolding argmax_def largest_at_unique [OF assms] by simp

lemma argmax_row: "argmax pick (11 / 20 # replicate 9 (1 / 20)) = 0"
  by (rule argmax_unique) (simp add: list_all_iff)

lemma concat_replicate_nth:
  "i < n \<Longrightarrow> j < length row \<Longrightarrow> concat (replicate n row) ! (i * length row + j) = row ! j"
proof (induction n arbitrary: i)
  case 0
  then show ?case by simp
next
  case (Suc n)
  show ?case
  proof (cases i)
    case 0
    with Suc.prems show ?thesis by (simp add: nth_append)
  next
    case (Suc k)
    with Suc.prems have "k < n" by simp
    from Suc.IH [OF this Suc.prems(2)] Suc show ?thesis by (simp add: nth_append)
  qed
qed

lemma lanes_rows:
  assumes "length row = c"
  shows "map (\<lambda>i. map (\<lambda>j. concat (replicate n row) ! (i * c + j)) [0..<c]) [0..<n] = replicate n row"
proof (rule nth_equalityI)
  show "length (map (\<lambda>i. map (\<lambda>j. concat (replicate n row) ! (i * c + j)) [0..<c]) [0..<n])
          = length (replicate n row)" by simp
next
  fix i assume "i < length (map (\<lambda>i. map (\<lambda>j. concat (replicate n row) ! (i * c + j)) [0..<c]) [0..<n])"
  then have i: "i < n" by simp
  have "map (\<lambda>j. concat (replicate n row) ! (i * c + j)) [0..<c] = map (\<lambda>j. row ! j) [0..<c]"
    using concat_replicate_nth [OF i, of _ row] assms by auto
  also have "\<dots> = row" using map_nth [of row] assms by simp
  finally show "map (\<lambda>i. map (\<lambda>j. concat (replicate n row) ! (i * c + j)) [0..<c]) [0..<n] ! i
                  = replicate n row ! i"
    using i by simp
qed

lemma topk1_rows:
  assumes "length row = c" and "0 < c"
  shows "topk1 pick \<lparr>shape = [n, c], elems = concat (replicate n row)\<rparr>
        = Inr (\<lparr>shape = [n, 1], elems = replicate n (foldl max (hd row) (tl row))\<rparr>,
               \<lparr>shape = [n, 1], elems = replicate n (argmax pick row)\<rparr>)"
proof -
  have "concat (map (\<lambda>i. map (\<lambda>k. map (\<lambda>j. concat (replicate n row) ! ((i * c + j) * 1 + k)) [0..<c])
                                                  [0..<1]) [0..<n])
        = map (\<lambda>i. map (\<lambda>j. concat (replicate n row) ! (i * c + j)) [0..<c]) [0..<n]"
    by (simp add: concat_map_singleton)
  also have "\<dots> = replicate n row" using assms(1) by (rule lanes_rows)
  finally have lanes: "concat (map (\<lambda>i. map (\<lambda>k. map (\<lambda>j. concat (replicate n row) ! ((i * c + j) * 1 + k)) [0..<c])
                                                  [0..<1]) [0..<n]) = replicate n row" .
  show ?thesis
    unfolding topk1_def using assms(2) lanes
    by (simp add: Let_def del: One_nat_def)
qed

lemma exp_row: "map exp (ln (11 / 20) # replicate 9 (ln (1 / 20))) = 11 / 20 # replicate 9 (1 / (20::real))"
  by simp

lemma accuracy_constant:
  assumes n: "0 < n" and lab: "shape labels = [n]" "length (elems labels) = n"
  shows "\<exists>s'. accuracy_of_batch constant_lib
            \<lparr>shape = [n, 10], elems = concat (replicate n (ln (11 / 20) # replicate 9 (ln (1 / 20))))\<rparr>
            labels s
          = Inr (Val (correct_in (elems labels) / real n), s')"
proof -
  let ?row = "ln (11 / 20) # replicate 9 (ln (1 / (20::real)))"
  let ?erow = "11 / 20 # replicate 9 (1 / (20::real))"
  let ?lp = "\<lparr>shape = [n, 10], elems = concat (replicate n ?row)\<rparr>"
  have e: "torch_exp ?lp = \<lparr>shape = [n, 10], elems = concat (replicate n ?erow)\<rparr>"
    unfolding torch_exp_def by (simp add: map_concat map_replicate exp_row del: replicate.simps)
  have t: "topk1 (tie constant_lib) \<lparr>shape = [n, 10], elems = concat (replicate n ?erow)\<rparr>
        = Inr (\<lparr>shape = [n, 1], elems = replicate n (foldl max (hd ?erow) (tl ?erow))\<rparr>,
               \<lparr>shape = [n, 1], elems = replicate n 0\<rparr>)"
    using topk1_rows [of ?erow 10 "tie constant_lib" n] by (simp add: argmax_row del: replicate.simps)
  have v: "view labels [n, 1] = Inr \<lparr>shape = [n, 1], elems = elems labels\<rparr>"
    using lab by (simp add: view_def)
  have q: "tensor_eq \<lparr>shape = [n, 1], elems = replicate n (0::nat)\<rparr> \<lparr>shape = [n, 1], elems = elems labels\<rparr>
        = Inr \<lparr>shape = [n, 1], elems = map (\<lambda>l. l = 0) (elems labels)\<rparr>"
  proof -
    have "map (\<lambda>i. replicate n (0::nat) ! i = elems labels ! i) [0..<n] = map (\<lambda>l. l = 0) (elems labels)"
      using lab(2) by (intro nth_equalityI) simp_all
    then show ?thesis
      using tensor_eq_same_col [of "\<lparr>shape = [n, 1], elems = replicate n (0::nat)\<rparr>" n
          "\<lparr>shape = [n, 1], elems = elems labels\<rparr>"] by simp
  qed
  have m: "torch_mean (type_FloatTensor \<lparr>shape = [n, 1], elems = map (\<lambda>l. l = 0) (elems labels)\<rparr>)
        = Val (correct_in (elems labels) / real n)"
  proof -
    have "map (\<lambda>b. if b then 1 else (0::real)) (map (\<lambda>l. l = 0) (elems labels))
          = map (\<lambda>l. if l = 0 then 1 else 0) (elems labels)"
      by (auto simp add: comp_def)
    moreover have "elems labels \<noteq> []" using n lab(2) by auto
    ultimately show ?thesis using lab(2)
      by (simp add: torch_mean_def type_FloatTensor_def correct_in_def comp_def)
  qed
  show ?thesis
    unfolding accuracy_of_batch_def
    by (simp add: then_do_def pure_call_constant e t v q m del: One_nat_def)
qed

lemma constant_net_rows:
  "shape images = k # sh \<Longrightarrow>
   constant_net w m r images =
     \<lparr>shape = [k, 10], elems = concat (replicate k (ln (11 / 20) # replicate 9 (ln (1 / 20))))\<rparr>"
  by (simp add: constant_net_def)

lemma then_do_ex:
  assumes "\<exists>a s'. m s = Inr (a, s') \<and> P a"
    and "\<And>a s'. P a \<Longrightarrow> \<exists>s''. f a s' = Inr (b, s'')"
  shows "\<exists>s''. then_do m f s = Inr (b, s'')"
proof -
  from assms(1) obtain a s' where "m s = Inr (a, s')" "P a" by blast
  with assms(2) [of a s'] show ?thesis by (auto simp add: then_do_def)
qed

lemma model_call_constant:
  assumes "shape images = k # sh"
  shows "\<exists>out s'. model_call constant_lib images s = Inr (out, s') \<and>
           fst out = \<lparr>shape = [k, 10], elems = concat (replicate k (ln (11 / 20) # replicate 9 (ln (1 / 20))))\<rparr>"
  by (simp add: model_call_def lib_call_constant constant_net_rows [OF assms])

lemma validation_pass_constant:
  assumes "shape images = k # sh" "0 < k" "shape labels = [k]" "length (elems labels) = k"
  shows "\<exists>s'. validation_pass constant_lib (images, labels) s
           = Inr (Val (correct_in (elems labels) / real k), s')"
  unfolding validation_pass_def prod.case
proof (rule then_do_ex [OF model_call_constant [OF assms(1)]])
  fix out :: "real tensor \<times> graph" and s' :: "unit state"
  assume "fst out = \<lparr>shape = [k, 10], elems = concat (replicate k (ln (11 / 20) # replicate 9 (ln (1 / 20))))\<rparr>"
  then show "\<exists>s''. accuracy_of_batch constant_lib (fst out) labels s'
                 = Inr (Val (correct_in (elems labels) / real k), s'')"
    using accuracy_constant [OF assms(2-4), of s'] by simp
qed

lemma test_pass_constant:
  assumes "shape images = k # sh" "0 < k" "shape labels = [k]" "length (elems labels) = k"
  shows "\<exists>s'. test_pass_dropout constant_lib (images, labels) s
           = Inr (Val (correct_in (elems labels) / real k), s')"
  unfolding test_pass_dropout_def prod.case
proof (rule then_do_ex [where P = "\<lambda>_. True"])
  show "\<exists>a s'. eval_call constant_lib s = Inr (a, s') \<and> True"
    by (simp add: eval_call_def lib_call_constant)
next
  fix u :: unit and s1 :: "unit state"
  show "\<exists>s''. then_do (model_call constant_lib images) (\<lambda>test_preds.
          then_do (criterion_call constant_lib test_preds labels) (\<lambda>loss.
          then_do (accuracy_of_batch constant_lib (fst test_preds) labels) (\<lambda>acc.
          then_do (train_call constant_lib) (\<lambda>_. ret acc)))) s1
        = Inr (Val (correct_in (elems labels) / real k), s'')"
  proof (rule then_do_ex [OF model_call_constant [OF assms(1)]])
    fix out :: "real tensor \<times> graph" and s2 :: "unit state"
    assume out: "fst out = \<lparr>shape = [k, 10], elems = concat (replicate k (ln (11 / 20) # replicate 9 (ln (1 / 20))))\<rparr>"
    show "\<exists>s''. then_do (criterion_call constant_lib out labels) (\<lambda>loss.
          then_do (accuracy_of_batch constant_lib (fst out) labels) (\<lambda>acc.
          then_do (train_call constant_lib) (\<lambda>_. ret acc))) s2
        = Inr (Val (correct_in (elems labels) / real k), s'')"
    proof (rule then_do_ex [where P = "\<lambda>_. True"])
      show "\<exists>a s'. criterion_call constant_lib out labels s2 = Inr (a, s') \<and> True"
        by (simp add: criterion_call_def pure_call_constant)
    next
      fix loss :: "real \<times> graph \<times> nat tensor" and s3 :: "unit state"
      show "\<exists>s''. then_do (accuracy_of_batch constant_lib (fst out) labels) (\<lambda>acc.
          then_do (train_call constant_lib) (\<lambda>_. ret acc)) s3
        = Inr (Val (correct_in (elems labels) / real k), s'')"
      proof (rule then_do_ex [where P = "\<lambda>a. a = Val (correct_in (elems labels) / real k)"])
        show "\<exists>a s'. accuracy_of_batch constant_lib (fst out) labels s3 = Inr (a, s') \<and>
                 a = Val (correct_in (elems labels) / real k)"
          using accuracy_constant [OF assms(2-4), of s3] out by simp
      next
        fix acc :: scalar and s4 :: "unit state"
        assume "acc = Val (correct_in (elems labels) / real k)"
        then show "\<exists>s''. then_do (train_call constant_lib) (\<lambda>_. ret acc) s4
                      = Inr (Val (correct_in (elems labels) / real k), s'')"
          by (simp add: then_do_def train_call_def lib_call_constant ret_def)
      qed
    qed
  qed
qed

lemma collect_values:
  assumes "\<And>b s. b \<in> set bs \<Longrightarrow> \<exists>s'. pass b s = Inr (f b, s')"
  shows "\<exists>s'. collect pass bs acc s = Inr (acc @ map f bs, s')"
  using assms
proof (induction bs arbitrary: acc s)
  case Nil
  show ?case by (simp add: ret_def)
next
  case (Cons b bs)
  from Cons.prems [of b s] obtain s1 where 1: "pass b s = Inr (f b, s1)" by auto
  from Cons.IH [of "acc @ [f b]" s1] Cons.prems
  obtain s' where "collect pass bs (acc @ [f b]) s1 = Inr ((acc @ [f b]) @ map f bs, s')" by auto
  with 1 show ?case by (simp add: then_do_def)
qed

lemma add_up_values:
  assumes "\<And>b s. b \<in> set bs \<Longrightarrow> \<exists>s'. pass b s = Inr (f b, s')"
  shows "\<exists>s'. add_up pass bs (Some t) s = Inr (Some (foldl scalar_add t (map f bs)), s')"
  using assms
proof (induction bs arbitrary: t s)
  case Nil
  show ?case by (simp add: ret_def)
next
  case (Cons b bs)
  from Cons.prems [of b s] obtain s1 where 1: "pass b s = Inr (f b, s1)" by auto
  from Cons.IH [of "scalar_add t (f b)" s1] Cons.prems
  obtain s' where "add_up pass bs (Some (scalar_add t (f b))) s1
      = Inr (Some (foldl scalar_add (scalar_add t (f b)) (map f bs)), s')" by auto
  with 1 show ?case by (simp add: then_do_def)
qed

lemma add_up_values_None:
  assumes "\<And>b s. b \<in> set bs \<Longrightarrow> \<exists>s'. pass b s = Inr (f b, s')" and "bs \<noteq> []"
  shows "\<exists>s'. add_up pass bs None s = Inr (Some (py_sum (map f bs)), s')"
proof -
  from assms(2) obtain b bs' where bs: "bs = b # bs'" by (cases bs) auto
  from assms(1) [of b s] bs obtain s1 where 1: "pass b s = Inr (f b, s1)" by auto
  have "\<exists>s'. add_up pass bs' (Some (scalar_add (Val 0) (f b))) s1
      = Inr (Some (foldl scalar_add (scalar_add (Val 0) (f b)) (map f bs')), s')"
    by (rule add_up_values) (use assms(1) bs in auto)
  with 1 bs show ?thesis by (simp add: then_do_def py_sum_def)
qed

lemma DataLoader_skewed: "DataLoader testset_skewed = replicate 156 full_batch @ [last_batch]"
proof -
  have "batches 64 (replicate (156 * 64) (replicate 784 (0::real), 0::nat) @ replicate 16 (replicate 784 0, 1))
        = replicate 156 (replicate 64 (replicate 784 0, 0)) @ batches 64 (replicate 16 (replicate 784 0, 1))"
    by (rule batches_replicate_append) simp
  moreover have "batches 64 (replicate 16 (replicate 784 (0::real), 1::nat)) = [replicate 16 (replicate 784 0, 1)]"
    by (rule batches_short) simp_all
  ultimately have "batches 64 testset_skewed
        = replicate 156 (replicate 64 (replicate 784 0, 0)) @ [replicate 16 (replicate 784 0, 1)]"
    by (simp add: testset_skewed_def)
  then show ?thesis
    by (simp add: DataLoader_def full_batch_def last_batch_def map_replicate del: replicate.simps)
qed

lemma batch_accuracy_full: "batch_accuracy full_batch = Val 1"
  by (simp add: batch_accuracy_def full_batch_def correct_in_def sum_list_replicate)

lemma batch_accuracy_last: "batch_accuracy last_batch = Val 0"
  by (simp add: batch_accuracy_def last_batch_def correct_in_def sum_list_replicate)

lemma skewed_pass:
  assumes "b \<in> set (replicate 156 full_batch @ [last_batch])"
  shows "\<exists>s'. validation_pass constant_lib b s = Inr (batch_accuracy b, s')"
    and "\<exists>s'. test_pass_dropout constant_lib b s = Inr (batch_accuracy b, s')"
proof -
  from assms consider "b = full_batch" | "b = last_batch" by auto
  then have "\<exists>images labels k sh. b = (images, labels) \<and> shape images = k # sh \<and> 0 < k
      \<and> shape labels = [k] \<and> length (elems labels) = k"
    by cases (simp_all add: full_batch_def last_batch_def collate_def)
  then obtain images labels k sh where b: "b = (images, labels)" and 1: "shape images = k # sh"
    and 2: "0 < k" and 3: "shape labels = [k]" and 4: "length (elems labels) = k"
    by blast
  show "\<exists>s'. validation_pass constant_lib b s = Inr (batch_accuracy b, s')"
    using validation_pass_constant [OF 1 2 3 4, of s] by (simp add: b batch_accuracy_def 4)
  show "\<exists>s'. test_pass_dropout constant_lib b s = Inr (batch_accuracy b, s')"
    using test_pass_constant [OF 1 2 3 4, of s] by (simp add: b batch_accuracy_def 4)
qed

lemma skewed_values:
  "map batch_accuracy (replicate 156 full_batch @ [last_batch]) = map Val (replicate 156 1 @ [0])"
  by (simp add: batch_accuracy_full batch_accuracy_last map_replicate del: replicate.simps)

lemma skewed_sum: "py_sum (map batch_accuracy (replicate 156 full_batch @ [last_batch])) = Val 156"
  unfolding skewed_values py_sum_def py_sum_Val by (simp add: sum_list_replicate)

lemma predicted_class_constant: "predicted_class constant_lib w x = 0"
proof -
  have "constant_net w False 0 (collate [x])
        = \<lparr>shape = [1, 10], elems = concat (replicate 1 (ln (11 / 20) # replicate 9 (ln (1 / 20))))\<rparr>"
    by (rule constant_net_rows [where sh = "[1, 28, 28]"]) (simp add: collate_def)
  then have "map exp (elems (constant_net w False 0 (collate [x]))) = 11 / 20 # replicate 9 (1 / 20)"
    using exp_row by simp
  then show ?thesis unfolding predicted_class_def by (simp add: argmax_row del: replicate.simps)
qed

text \<open>
  C1. The accuracy the loops compute should be the fraction of the test examples whose
  predicted class is their label. With 10000 test examples the loader hands out 156
  batches of 64 and one of 16, and both validation loops average the accuracies of the
  batches without their sizes: for a model that always predicts class 0 and a test set
  whose shuffled order ends with its 16 examples of another class, both loops compute
  156/157, while the fraction of correctly predicted examples is 9984/10000 = 624/625.
\<close>

theorem accuracy_is_mean_of_batch_means:
  "(\<exists>s'. validation_loop constant_lib (DataLoader testset_skewed) s = Inr (Val (156 / 157), s'))
   \<and> (\<exists>s'. test_accuracy_dropout constant_lib (DataLoader testset_skewed) s = Inr (Val (156 / 157), s'))
   \<and> fraction_correct constant_lib w testset_skewed = 624 / 625
   \<and> map (\<lambda>b. length (elems (snd b))) (DataLoader testset_skewed) = replicate 156 64 @ [16]"
proof (intro conjI)
  let ?bs = "replicate 156 full_batch @ [last_batch]"
  have len: "length ?bs = 157" by simp
  from collect_values [of ?bs "validation_pass constant_lib" batch_accuracy "[]" s] skewed_pass(1)
  obtain s1 where c: "collect (validation_pass constant_lib) ?bs [] s = Inr (map batch_accuracy ?bs, s1)"
    by auto
  show "\<exists>s'. validation_loop constant_lib (DataLoader testset_skewed) s = Inr (Val (156 / 157), s')"
    unfolding validation_loop_def DataLoader_skewed
    by (simp add: then_do_def c skewed_sum ret_def print_def del: replicate.simps map_append)
  have ne: "?bs \<noteq> []" by simp
  from add_up_values_None [of ?bs "test_pass_dropout constant_lib" batch_accuracy s] skewed_pass(2) ne
  obtain s2 where a: "add_up (test_pass_dropout constant_lib) ?bs None s = Inr (Some (py_sum (map batch_accuracy ?bs)), s2)"
    by auto
  show "\<exists>s'. test_accuracy_dropout constant_lib (DataLoader testset_skewed) s = Inr (Val (156 / 157), s')"
    unfolding test_accuracy_dropout_def DataLoader_skewed
    by (simp add: then_do_def a skewed_sum numpy_div_def pure_call_constant ret_def del: replicate.simps map_append)
  show "fraction_correct constant_lib w testset_skewed = 624 / 625"
    by (simp add: fraction_correct_def predicted_class_constant testset_skewed_def)
  show "map (\<lambda>b. length (elems (snd b))) (DataLoader testset_skewed) = replicate 156 64 @ [16]"
    unfolding DataLoader_skewed by (simp add: full_batch_def last_batch_def map_replicate del: replicate.simps)
qed

end
